theory Spec2Isabelle
  imports Complex_Main "HOL-Library.Word" "HOL-Library.Stream"
begin

unbundle bit_operations_syntax

section \<open>Python values\<close>

text \<open>Exceptions are values of a sum type (\<open>Inl\<close> the exception).\<close>

text \<open>
  \<open>IntegrityError\<close> is SQLAlchemy's, \<open>RequestValidationError\<close> is what FastAPI answers
  (status 422) when a request body fails its pydantic schema, \<open>HTTPException\<close> carries
  the status code a route raises.
\<close>

datatype error = IntegrityError | RequestValidationError | HTTPException nat

text \<open>
  Python's slice \<open>xs[i:j]\<close>: a negative index counts from the end, and both indices are
  clamped to the length.
\<close>

definition slice_index :: "int \<Rightarrow> nat \<Rightarrow> nat" where
  "slice_index i n = (if i < 0 then nat (max 0 (int n + i)) else min (nat i) n)"

definition py_slice :: "'a list \<Rightarrow> int \<Rightarrow> int \<Rightarrow> 'a list" where
  "py_slice xs i j =
     (let a = slice_index i (length xs); b = slice_index j (length xs)
      in take (b - a) (drop a xs))"

section \<open>The mapping store (backend/src/services/mapping_store.py)\<close>

subsection \<open>Fingerprints\<close>

text \<open>
  \<open>hashlib.sha256\<close> is the standard library's; the store takes it as the parameter
  \<open>sha\<close>, the 256-bit digest of the UTF-8 encoding of a string.  \<open>hexdigest\<close> prints
  the digest as 64 lower-case hexadecimal characters, most significant nibble first.
\<close>

definition hex_char :: "nat \<Rightarrow> char" where
  "hex_char n = ''0123456789abcdef'' ! n"

definition hexdigest :: "256 word \<Rightarrow> string" where
  "hexdigest w = map (\<lambda>i. hex_char (unat (drop_bit (4 * (63 - i)) w AND 15))) [0..<64]"

definition combined :: "string \<Rightarrow> string \<Rightarrow> string" where
  "combined original_value entity_type' = original_value @ ''|'' @ entity_type'"

definition compute_hash :: "(string \<Rightarrow> 256 word) \<Rightarrow> string \<Rightarrow> string \<Rightarrow> string" where
  "compute_hash sha original_value entity_type' =
     hexdigest (sha (combined original_value entity_type'))"

subsection \<open>Rows and the session\<close>

text \<open>
  A row of table \<open>pii_mappings\<close> (models/pii\_mapping.py); the primary key \<open>id\<close> is
  written \<open>id'\<close>.  The session holds the table in insertion order and the next
  autoincrement key.  Index \<open>idx_lookup\<close> is declared \<open>unique=True\<close> on
  \<open>(original_hash, entity_type)\<close>: an INSERT of a second row with the same pair raises
  \<open>IntegrityError\<close> at \<open>flush()\<close>.  \<open>datetime.utcnow()\<close> is the parameter \<open>now\<close>.
\<close>

type_synonym datetime = int

record PIIMapping =
  id' :: nat
  original_hash :: string
  substitute :: string
  entity_type :: string
  first_seen :: datetime
  last_used :: datetime
  substitution_count :: int

record session =
  rows :: "PIIMapping list"
  next_id :: nat

definition matches :: "string \<Rightarrow> string \<Rightarrow> PIIMapping \<Rightarrow> bool" where
  "matches h t m = (original_hash m = h \<and> entity_type m = t)"

text \<open>\<open>query(PIIMapping).filter(original_hash == h, entity_type == t).first()\<close>\<close>

definition query_first :: "session \<Rightarrow> string \<Rightarrow> string \<Rightarrow> PIIMapping option" where
  "query_first db h t = List.find (matches h t) (rows db)"

text \<open>Mutating the object a query returned and flushing updates that row in place.\<close>

fun update_first :: "('a \<Rightarrow> bool) \<Rightarrow> ('a \<Rightarrow> 'a) \<Rightarrow> 'a list \<Rightarrow> 'a list" where
  "update_first P f [] = []"
| "update_first P f (x # xs) = (if P x then f x # xs else x # update_first P f xs)"

definition get_substitute ::
  "(string \<Rightarrow> 256 word) \<Rightarrow> session \<Rightarrow> string \<Rightarrow> string \<Rightarrow> string option" where
  "get_substitute sha db original_value entity_type' =
     (let original_hash' = compute_hash sha original_value entity_type';
          mapping = query_first db original_hash' entity_type'
      in case mapping of Some m \<Rightarrow> Some (substitute m) | None \<Rightarrow> None)"

definition create_mapping ::
  "(string \<Rightarrow> 256 word) \<Rightarrow> session \<Rightarrow> string \<Rightarrow> string \<Rightarrow> string \<Rightarrow> datetime
     \<Rightarrow> error + PIIMapping \<times> session" where
  "create_mapping sha db original_value substitute' entity_type' now =
     (let original_hash' = compute_hash sha original_value entity_type';
          mapping = \<lparr> id' = next_id db, original_hash = original_hash',
                      substitute = substitute', entity_type = entity_type',
                      first_seen = now, last_used = now, substitution_count = 1 \<rparr>
      in if query_first db original_hash' entity_type' \<noteq> None then Inl IntegrityError
         else Inr (mapping, db \<lparr> rows := rows db @ [mapping], next_id := Suc (next_id db) \<rparr>))"

definition increment_count ::
  "(string \<Rightarrow> 256 word) \<Rightarrow> session \<Rightarrow> string \<Rightarrow> string \<Rightarrow> datetime \<Rightarrow> int \<times> session" where
  "increment_count sha db original_value entity_type' now =
     (let original_hash' = compute_hash sha original_value entity_type'
      in case query_first db original_hash' entity_type' of
           Some m \<Rightarrow>
             (substitution_count m + 1,
              db \<lparr> rows := update_first (matches original_hash' entity_type')
                     (\<lambda>r. r \<lparr> substitution_count := substitution_count r + 1, last_used := now \<rparr>)
                     (rows db) \<rparr>)
         | None \<Rightarrow> (0, db))"

text \<open>
  \<open>generator_func\<close> is called as \<open>generator_func(entity_type, original_value)\<close>.  The
  test \<open>if existing:\<close> is false for \<open>None\<close> and for the empty string; both take the
  branch that generates and inserts.  There is no \<open>try\<close> around \<open>create_mapping\<close>:
  its exception leaves \<open>get_or_create\<close>.
\<close>

definition get_or_create ::
  "(string \<Rightarrow> 256 word) \<Rightarrow> session \<Rightarrow> string \<Rightarrow> string \<Rightarrow> (string \<Rightarrow> string \<Rightarrow> string)
     \<Rightarrow> datetime \<Rightarrow> error + (string \<times> bool) \<times> session" where
  "get_or_create sha db original_value entity_type' generator_func now =
     (let existing = get_substitute sha db original_value entity_type';
          found = (\<lambda>e. Inr ((e, False),
                     snd (increment_count sha db original_value entity_type' now)));
          missing =
            (let substitute' = generator_func entity_type' original_value
             in case create_mapping sha db original_value substitute' entity_type' now of
                  Inl e \<Rightarrow> Inl e
                | Inr (m, db') \<Rightarrow> Inr ((substitute', True), db'))
      in case existing of
           Some e \<Rightarrow> if e \<noteq> [] then found e else missing
         | None \<Rightarrow> missing)"

text \<open>
  The same steps with another writer's committed work \<open>env\<close> applied between the
  lookup and what follows it: the lookup reads \<open>db\<close>, the increment or the insert runs on
  \<open>env db\<close>.
\<close>

definition get_or_create_interleaved ::
  "(string \<Rightarrow> 256 word) \<Rightarrow> session \<Rightarrow> (session \<Rightarrow> session) \<Rightarrow> string \<Rightarrow> string
     \<Rightarrow> (string \<Rightarrow> string \<Rightarrow> string) \<Rightarrow> datetime \<Rightarrow> error + (string \<times> bool) \<times> session" where
  "get_or_create_interleaved sha db env original_value entity_type' generator_func now =
     (let existing = get_substitute sha db original_value entity_type';
          found = (\<lambda>e. Inr ((e, False),
                     snd (increment_count sha (env db) original_value entity_type' now)));
          missing =
            (let substitute' = generator_func entity_type' original_value
             in case create_mapping sha (env db) original_value substitute' entity_type' now of
                  Inl e \<Rightarrow> Inl e
                | Inr (m, db') \<Rightarrow> Inr ((substitute', True), db'))
      in case existing of
           Some e \<Rightarrow> if e \<noteq> [] then found e else missing
         | None \<Rightarrow> missing)"

text \<open>A run of calls on one session; an exception ends the run, as it ends the request.\<close>

fun get_or_create_all ::
  "(string \<Rightarrow> 256 word) \<Rightarrow> session
     \<Rightarrow> (string \<times> string \<times> (string \<Rightarrow> string \<Rightarrow> string) \<times> datetime) list
     \<Rightarrow> error + session" where
  "get_or_create_all sha db [] = Inr db"
| "get_or_create_all sha db ((v, t, g, now) # cs) =
     (case get_or_create sha db v t g now of
        Inl e \<Rightarrow> Inl e
      | Inr (r, db') \<Rightarrow> get_or_create_all sha db' cs)"

text \<open>The uniqueness invariant of \<open>idx_lookup\<close>.\<close>

definition unique_index :: "session \<Rightarrow> bool" where
  "unique_index db = distinct (map (\<lambda>m. (original_hash m, entity_type m)) (rows db))"

definition empty_session :: session where
  "empty_session = \<lparr> rows = [], next_id = 1 \<rparr>"

text \<open>
  What a later state keeps of a row: everything but \<open>last_used\<close>, and a count that has
  not gone down.  \<open>rows_kept\<close> says so of every row of the earlier table, position by
  position.
\<close>

definition row_kept :: "PIIMapping \<Rightarrow> PIIMapping \<Rightarrow> bool" where
  "row_kept m m' =
     (id' m' = id' m \<and> original_hash m' = original_hash m \<and> entity_type m' = entity_type m \<and>
      substitute m' = substitute m \<and> first_seen m' = first_seen m \<and>
      substitution_count m \<le> substitution_count m')"

definition rows_kept :: "session \<Rightarrow> session \<Rightarrow> bool" where
  "rows_kept db db' =
     (length (rows db) \<le> length (rows db') \<and>
      list_all2 row_kept (rows db) (take (length (rows db)) (rows db')))"

section \<open>Detection (backend/src/services/detector.py)\<close>

text \<open>
  Presidio's \<open>AnalyzerEngine.analyze(text, entities, language, score_threshold)\<close> is the
  parameter \<open>analyze\<close>; it returns \<open>RecognizerResult\<close>s.  The fields of the result
  classes carry a prefix here, since several classes share field names.  Scores are
  \<open>float\<close>s that the code only passes on and compares; they are reals here.
\<close>

record RecognizerResult =
  rr_entity_type :: string
  rr_start :: int
  rr_end :: int
  rr_score :: real

record DetectionResult =
  det_entity_type :: string
  det_start :: int
  det_end :: int
  det_score :: real
  det_text :: string

type_synonym analyzer = "string \<Rightarrow> string list \<Rightarrow> string \<Rightarrow> real \<Rightarrow> RecognizerResult list"

definition SUPPORTED_ENTITY_TYPES :: "string list" where
  "SUPPORTED_ENTITY_TYPES =
     [''PERSON'', ''EMAIL_ADDRESS'', ''PHONE_NUMBER'', ''CREDIT_CARD'', ''US_SSN'',
      ''US_BANK_NUMBER'', ''US_DRIVER_LICENSE'', ''US_ITIN'', ''US_PASSPORT'', ''IP_ADDRESS'',
      ''LOCATION'', ''STREET_ADDRESS'', ''DATE_TIME'', ''NRP'', ''MEDICAL_LICENSE'', ''URL'',
      ''IBAN_CODE'', ''CRYPTO'', ''GUID'', ''COORDINATE'']"

text \<open>
  \<open>entity_types or SUPPORTED_ENTITY_TYPES\<close> takes the supported list for \<open>None\<close> and for
  the empty list; the comprehension then drops every name that is not supported.
\<close>

definition entities_to_detect :: "string list option \<Rightarrow> string list" where
  "entities_to_detect entity_types =
     (let requested = (case entity_types of
                         None \<Rightarrow> SUPPORTED_ENTITY_TYPES
                       | Some [] \<Rightarrow> SUPPORTED_ENTITY_TYPES
                       | Some ts \<Rightarrow> ts)
      in filter (\<lambda>e. e \<in> set SUPPORTED_ENTITY_TYPES) requested)"

definition detect ::
  "analyzer \<Rightarrow> string \<Rightarrow> string \<Rightarrow> string list option \<Rightarrow> real \<Rightarrow> DetectionResult list" where
  "detect analyze language text entity_types score_threshold =
     (let results = analyze text (entities_to_detect entity_types) language score_threshold;
          detection_results =
            map (\<lambda>result. \<lparr> det_entity_type = rr_entity_type result,
                             det_start = rr_start result, det_end = rr_end result,
                             det_score = rr_score result,
                             det_text = py_slice text (rr_start result) (rr_end result) \<rparr>)
                results
      in sort_key det_start detection_results)"

section \<open>Anonymization (backend/src/services/anonymizer.py)\<close>

text \<open>
  Presidio's \<open>AnonymizerEngine.anonymize(text, analyzer_results, operators)\<close> is the
  parameter \<open>engine\<close>.  It calls the \<open>consistent_replace\<close> operator on the spans it
  keeps, so it reads and writes the mapping table and fills the two lists the operator
  was given: it returns the engine result, \<open>new_mappings\<close>, \<open>existing_mappings\<close> and the
  session, or raises.  The two readings of \<open>time.time()\<close> enter as the elapsed
  milliseconds, \<open>datetime.utcnow()\<close> as \<open>now\<close>.
\<close>

record OperatorResult =
  item_start :: int
  item_end :: int
  item_entity_type :: string
  item_text :: string

record EngineResult =
  er_text :: string
  er_items :: "OperatorResult list"

type_synonym engine =
  "string \<Rightarrow> RecognizerResult list \<Rightarrow> session
     \<Rightarrow> error + (EngineResult \<times> string list \<times> string list) \<times> session"

record SubstitutionInfo =
  sub_start :: int
  sub_end :: int
  sub_entity_type :: string
  sub_original_length :: int
  sub_substitute :: string

record AnonymizationResult =
  anonymized_text :: string
  substitutions :: "SubstitutionInfo list"
  entities_detected :: nat
  entities_anonymized :: nat
  new_mappings_created :: nat
  existing_mappings_used :: nat
  processing_time_ms :: int

text \<open>
  A row of \<open>audit_logs\<close>.  \<open>entity_types_processed\<close> is built with \<open>list(set(...))\<close>,
  whose order Python leaves open: it is a set here.
\<close>

record AuditLog =
  timestamp :: datetime
  operation :: string
  entity_types_processed :: "string set"
  input_length :: nat
  audit_entities_detected :: nat
  audit_entities_anonymized :: nat
  duration_ms :: int

text \<open>
  What a request can change: the mapping table, the audit log, and (kept to say when
  detection ran) the list of calls made to the analyzer.
\<close>

record world =
  mappings :: session
  audit_logs :: "AuditLog list"
  analyzer_calls :: "(string \<times> string list \<times> real) list"

definition log_operation' ::
  "string \<Rightarrow> string set \<Rightarrow> nat \<Rightarrow> nat \<Rightarrow> nat \<Rightarrow> int \<Rightarrow> datetime \<Rightarrow> world \<Rightarrow> world" where
  "log_operation' op entity_types input_len detected anonymized duration now w =
     w \<lparr> audit_logs := audit_logs w @
           [\<lparr> timestamp = now, operation = op, entity_types_processed = entity_types,
              input_length = input_len, audit_entities_detected = detected,
              audit_entities_anonymized = anonymized, duration_ms = duration \<rparr>] \<rparr>"

definition build_substitutions ::
  "DetectionResult list \<Rightarrow> OperatorResult list \<Rightarrow> SubstitutionInfo list" where
  "build_substitutions detections items =
     (let sorted_detections = sort_key det_start detections;
          sorted_items = sort_key item_start items
      in map (\<lambda>(detection, item).
                \<lparr> sub_start = det_start detection, sub_end = det_end detection,
                  sub_entity_type = det_entity_type detection,
                  sub_original_length = det_end detection - det_start detection,
                  sub_substitute = item_text item \<rparr>)
             (zip sorted_detections sorted_items))"

text \<open>
  An exception of the engine leaves \<open>anonymize\<close> before \<open>commit()\<close>: the mapping table
  and the audit log stay as they were.
\<close>

definition anonymize ::
  "analyzer \<Rightarrow> engine \<Rightarrow> string \<Rightarrow> string list option \<Rightarrow> real \<Rightarrow> bool \<Rightarrow> int \<Rightarrow> datetime
     \<Rightarrow> world \<Rightarrow> (error + AnonymizationResult) \<times> world" where
  "anonymize analyze engine text entity_types confidence_threshold log_operation elapsed now w =
     (let detections = detect analyze ''en'' text entity_types confidence_threshold;
          w1 = w \<lparr> analyzer_calls := analyzer_calls w @
                     [(text, entities_to_detect entity_types, confidence_threshold)] \<rparr>
      in if detections = [] then
           (Inr \<lparr> anonymized_text = text, substitutions = [], entities_detected = 0,
                  entities_anonymized = 0, new_mappings_created = 0,
                  existing_mappings_used = 0, processing_time_ms = elapsed \<rparr>,
            if log_operation
            then log_operation' ''anonymize''
                   (case entity_types of None \<Rightarrow> {} | Some ts \<Rightarrow> set ts)
                   (length text) 0 0 elapsed now w1
            else w1)
         else
           (let analyzer_results =
                  map (\<lambda>d. \<lparr> rr_entity_type = det_entity_type d, rr_start = det_start d,
                              rr_end = det_end d, rr_score = det_score d \<rparr>) detections
            in case engine text analyzer_results (mappings w1) of
                 Inl e \<Rightarrow> (Inl e, w1)
               | Inr ((engine_result, new_mappings, existing_mappings), db') \<Rightarrow>
                   (let w2 = w1 \<lparr> mappings := db' \<rparr>;
                        subs = build_substitutions detections (er_items engine_result)
                    in (Inr \<lparr> anonymized_text = er_text engine_result, substitutions = subs,
                              entities_detected = length detections,
                              entities_anonymized = length subs,
                              new_mappings_created = length new_mappings,
                              existing_mappings_used = length existing_mappings,
                              processing_time_ms = elapsed \<rparr>,
                        if log_operation
                        then log_operation' ''anonymize'' (set (map det_entity_type detections))
                               (length text) (length detections) (length subs) elapsed now w2
                        else w2))))"

text \<open>\<open>anonymize_batch\<close>: every text in turn, without a log entry of its own.\<close>

fun anonymize_each ::
  "analyzer \<Rightarrow> engine \<Rightarrow> string list \<Rightarrow> string list option \<Rightarrow> real \<Rightarrow> int \<Rightarrow> datetime
     \<Rightarrow> world \<Rightarrow> (error + AnonymizationResult list) \<times> world" where
  "anonymize_each analyze engine [] entity_types thr elapsed now w = (Inr [], w)"
| "anonymize_each analyze engine (text # texts) entity_types thr elapsed now w =
     (case anonymize analyze engine text entity_types thr False elapsed now w of
        (Inl e, w') \<Rightarrow> (Inl e, w')
      | (Inr result, w') \<Rightarrow>
          (case anonymize_each analyze engine texts entity_types thr elapsed now w' of
             (Inl e, w'') \<Rightarrow> (Inl e, w'')
           | (Inr results, w'') \<Rightarrow> (Inr (result # results), w'')))"

definition anonymize_batch ::
  "analyzer \<Rightarrow> engine \<Rightarrow> string list \<Rightarrow> string list option \<Rightarrow> real \<Rightarrow> int \<Rightarrow> datetime
     \<Rightarrow> world \<Rightarrow> (error + AnonymizationResult list \<times> nat \<times> int) \<times> world" where
  "anonymize_batch analyze engine texts entity_types thr elapsed now w =
     (case anonymize_each analyze engine texts entity_types thr elapsed now w of
        (Inl e, w') \<Rightarrow> (Inl e, w')
      | (Inr results, w') \<Rightarrow>
          (let total_detected = sum_list (map entities_detected results)
           in (Inr (results, total_detected, elapsed),
               log_operation' ''batch_anonymize''
                 (case entity_types of None \<Rightarrow> {} | Some ts \<Rightarrow> set ts)
                 (sum_list (map length texts)) total_detected
                 (sum_list (map entities_anonymized results)) elapsed now w')))"

section \<open>The API (backend/src/api/schemas.py, backend/src/api/routes/anonymize.py)\<close>


record BatchAnonymizeRequest =
  req_texts :: "string list"
  batch_entity_types :: "string list option"
  batch_confidence_threshold :: "real option"

definition valid_threshold :: "real option \<Rightarrow> bool" where
  "valid_threshold c = (case c of None \<Rightarrow> True | Some x \<Rightarrow> 0 \<le> x \<and> x \<le> 1)"


definition validate_BatchAnonymizeRequest ::
  "BatchAnonymizeRequest \<Rightarrow> error + BatchAnonymizeRequest" where
  "validate_BatchAnonymizeRequest r =
     (if length (req_texts r) \<le> 1000 \<and> valid_threshold (batch_confidence_threshold r)
      then Inr r else Inl RequestValidationError)"

text \<open>
  \<open>_get_config_defaults\<close> reads the active configuration; its result is the parameter
  \<open>config\<close>: the enabled entity types (or \<open>None\<close>), the threshold and the locale.  Any
  exception inside the \<open>try\<close> becomes status 500.
\<close>

type_synonym config_defaults = "string list option \<times> real \<times> string"


definition batch_anonymize_texts ::
  "analyzer \<Rightarrow> engine \<Rightarrow> config_defaults \<Rightarrow> int \<Rightarrow> datetime \<Rightarrow> BatchAnonymizeRequest \<Rightarrow> world
     \<Rightarrow> (error + AnonymizationResult list \<times> nat \<times> int) \<times> world" where
  "batch_anonymize_texts analyze engine config elapsed now request w =
     (if req_texts request = [] then (Inl (HTTPException 400), w)
      else if length (req_texts request) > 1000 then (Inl (HTTPException 400), w)
      else
        (case config of (default_types, default_threshold, locale) \<Rightarrow>
           (let entity_types = (case batch_entity_types request of
                                  Some ts \<Rightarrow> Some ts | None \<Rightarrow> default_types);
                threshold = (case batch_confidence_threshold request of
                               Some c \<Rightarrow> c | None \<Rightarrow> default_threshold)
            in case anonymize_batch analyze engine (req_texts request) entity_types threshold
                      elapsed now w of
                 (Inl e, w') \<Rightarrow> (Inl (HTTPException 500), w')
               | (Inr r, w') \<Rightarrow> (Inr r, w'))))"


definition post_anonymize_batch ::
  "analyzer \<Rightarrow> engine \<Rightarrow> config_defaults \<Rightarrow> int \<Rightarrow> datetime \<Rightarrow> BatchAnonymizeRequest \<Rightarrow> world
     \<Rightarrow> (error + AnonymizationResult list \<times> nat \<times> int) \<times> world" where
  "post_anonymize_batch analyze engine config elapsed now body w =
     (case validate_BatchAnonymizeRequest body of
        Inl e \<Rightarrow> (Inl e, w)
      | Inr request \<Rightarrow> batch_anonymize_texts analyze engine config elapsed now request w)"

definition empty_world :: world where
  "empty_world = \<lparr> mappings = empty_session, audit_logs = [], analyzer_calls = [] \<rparr>"

section \<open>The synthetic generator (backend/src/generators/synthetic.py)\<close>

subsection \<open>Strings and decimal numbers\<close>

text \<open>
  A Python \<open>str\<close> is a \<open>string\<close>, one \<open>char\<close> per code point below 256.  \<open>str_nat\<close> is
  \<open>str(n)\<close> for an \<open>int\<close> that is not negative, \<open>split_on\<close> is \<open>s.split(sep)\<close> for a
  separator of one character (it always returns at least one piece).
\<close>

definition is_digit :: "char \<Rightarrow> bool" where
  "is_digit c = (c \<in> set ''0123456789'')"

definition digit_value :: "char \<Rightarrow> nat" where
  "digit_value c = length (takeWhile (\<lambda>d. d \<noteq> c) ''0123456789'')"

definition digit_char :: "nat \<Rightarrow> char" where
  "digit_char n = ''0123456789'' ! n"

function str_nat :: "nat \<Rightarrow> string" where
  "str_nat n = (if n < 10 then [digit_char n] else str_nat (n div 10) @ [digit_char (n mod 10)])"
  by pat_completeness auto
termination
  by (relation "measure (\<lambda>n. n)") auto

declare str_nat.simps [simp del]

definition decimal :: "string \<Rightarrow> nat" where
  "decimal s = foldl (\<lambda>n c. 10 * n + digit_value c) 0 s"

text \<open>
  \<open>int(s)\<close> for the strings that consist of ASCII digits; \<open>None\<close> is \<open>ValueError\<close>.
  Python's \<open>int\<close> also accepts surrounding white space, a sign and underscores between
  digits.  Its only use in the generator is in \<open>is_network_address\<close>, where \<open>ip_network\<close>
  parses the same piece next and raises \<open>ValueError\<close> for everything but ASCII digits
  (\<open>_prefix_from_prefix_string\<close>), so that the outcome for those strings is the same.
\<close>

definition py_int :: "string \<Rightarrow> nat option" where
  "py_int s = (if s \<noteq> [] \<and> list_all is_digit s then Some (decimal s) else None)"

fun split_on :: "char \<Rightarrow> string \<Rightarrow> string list" where
  "split_on sep [] = [[]]"
| "split_on sep (x # xs) =
     (if x = sep then [] # split_on sep xs
      else case split_on sep xs of
             piece # pieces \<Rightarrow> (x # piece) # pieces
           | [] \<Rightarrow> [[x]])"

subsection \<open>The random sources\<close>

text \<open>
  A source of randomness is the stream of its future outcomes, one natural number per
  call.  \<open>random.randint(a, b)\<close> maps an outcome into \<open>[a, b]\<close>, \<open>random.choice(xs)\<close>
  into the positions of \<open>xs\<close>; every value of the range is the image of some outcome.
\<close>

type_synonym rng = "nat stream"

definition randint :: "nat \<Rightarrow> nat \<Rightarrow> rng \<Rightarrow> nat \<times> rng" where
  "randint a b rng = (a + shd rng mod (b - a + 1), stl rng)"

definition choice :: "'a list \<Rightarrow> rng \<Rightarrow> 'a \<times> rng" where
  "choice xs rng = (xs ! (shd rng mod length xs), stl rng)"

fun choices :: "'a list \<Rightarrow> nat \<Rightarrow> rng \<Rightarrow> 'a list \<times> rng" where
  "choices xs 0 rng = ([], rng)"
| "choices xs (Suc k) rng =
     (case choice xs rng of (x, rng') \<Rightarrow>
        (case choices xs k rng' of (rest, rng'') \<Rightarrow> (x # rest, rng'')))"

subsection \<open>The \<open>ipaddress\<close> module: IPv4\<close>

text \<open>
  The standard library's \<open>ipaddress\<close>, after CPython 3.11.  An \<open>IPv4Address\<close> is its
  integer, below \<open>2^32\<close>; an \<open>IPv4Network\<close> is its network address and its prefix
  length.  \<open>None\<close> is an exception (\<open>AddressValueError\<close>, \<open>NetmaskValueError\<close> or
  \<open>ValueError\<close>, all of them \<open>ValueError\<close>s for the \<open>except\<close> clauses of the
  generator).  \<open>IPv4Address\<close> of a string follows \<open>_ip_int_from_string\<close> and
  \<open>_parse_octet\<close>: four pieces between dots, each of one to three ASCII digits,
  without a leading zero, at most 255.
\<close>

definition ipv4 :: "nat \<Rightarrow> nat \<Rightarrow> nat \<Rightarrow> nat \<Rightarrow> nat" where
  "ipv4 a b c d = ((a * 256 + b) * 256 + c) * 256 + d"

definition parse_octet :: "string \<Rightarrow> nat option" where
  "parse_octet octet_str =
     (if octet_str = [] then None
      else if \<not> list_all is_digit octet_str then None
      else if length octet_str > 3 then None
      else if octet_str \<noteq> ''0'' \<and> hd octet_str = CHR ''0'' then None
      else if decimal octet_str > 255 then None
      else Some (decimal octet_str))"

definition IPv4Address :: "string \<Rightarrow> nat option" where
  "IPv4Address ip_str =
     (case map parse_octet (split_on CHR ''.'' ip_str) of
        [Some a, Some b, Some c, Some d] \<Rightarrow> Some (ipv4 a b c d)
      | _ \<Rightarrow> None)"

definition str_octets :: "nat \<Rightarrow> nat \<Rightarrow> nat \<Rightarrow> nat \<Rightarrow> string" where
  "str_octets a b c d = str_nat a @ ''.'' @ str_nat b @ ''.'' @ str_nat c @ ''.'' @ str_nat d"

definition str_ip :: "nat \<Rightarrow> string" where
  "str_ip ip =
     str_octets (ip div 16777216 mod 256) (ip div 65536 mod 256) (ip div 256 mod 256) (ip mod 256)"

type_synonym network = "nat \<times> nat"

definition str_network :: "network \<Rightarrow> string" where
  "str_network net = str_ip (fst net) @ ''/'' @ str_nat (snd net)"

text \<open>
  \<open>IPv4Network(s, strict)\<close> for an address with an optional prefix length in digits
  (\<open>_prefix_from_prefix_string\<close> takes ASCII digits only, which is what \<open>py_int\<close>
  takes).  The call sites never reach the dotted netmask form (\<open>/255.255.255.0\<close>): in
  \<open>is_network_address\<close> \<open>int\<close> has refused it before, and the generators write the prefix
  with \<open>str\<close> of an \<open>int\<close>.  With \<open>strict\<close>, host bits that are set raise \<open>ValueError\<close>;
  without, they are cleared.
\<close>

definition IPv4Network :: "string \<Rightarrow> bool \<Rightarrow> network option" where
  "IPv4Network s strict =
     (let parts = split_on CHR ''/'' s
      in if length parts > 2 then None
         else case IPv4Address (hd parts) of
                None \<Rightarrow> None
              | Some ip \<Rightarrow>
                  (case (if length parts = 2 then py_int (parts ! 1) else Some 32) of
                     None \<Rightarrow> None
                   | Some prefixlen \<Rightarrow>
                       if prefixlen > 32 then None
                       else if strict \<and> ip mod 2 ^ (32 - prefixlen) \<noteq> 0 then None
                       else Some (ip div 2 ^ (32 - prefixlen) * 2 ^ (32 - prefixlen), prefixlen)))"

text \<open>\<open>address in network\<close>: the address under the netmask is the network address.\<close>

definition in_network :: "nat \<Rightarrow> network \<Rightarrow> bool" where
  "in_network ip net = (ip div 2 ^ (32 - snd net) * 2 ^ (32 - snd net) = fst net)"

text \<open>
  The properties of \<open>IPv4Address\<close> that the generators read, with the tables of
  \<open>ipaddress._IPv4Constants\<close> (CPython 3.11).
\<close>

definition py_private_networks :: "network list" where
  "py_private_networks =
     [(ipv4 0 0 0 0, 8), (ipv4 10 0 0 0, 8), (ipv4 127 0 0 0, 8), (ipv4 169 254 0 0, 16),
      (ipv4 172 16 0 0, 12), (ipv4 192 0 0 0, 24), (ipv4 192 0 0 170, 31),
      (ipv4 192 0 2 0, 24), (ipv4 192 168 0 0, 16), (ipv4 198 18 0 0, 15),
      (ipv4 198 51 100 0, 24), (ipv4 203 0 113 0, 24), (ipv4 240 0 0 0, 4),
      (ipv4 255 255 255 255, 32)]"

definition py_private_networks_exceptions :: "network list" where
  "py_private_networks_exceptions = [(ipv4 192 0 0 9, 32), (ipv4 192 0 0 10, 32)]"

definition is_private :: "nat \<Rightarrow> bool" where
  "is_private ip =
     (list_ex (in_network ip) py_private_networks \<and>
      list_all (\<lambda>net. \<not> in_network ip net) py_private_networks_exceptions)"

definition is_reserved :: "nat \<Rightarrow> bool" where
  "is_reserved ip = in_network ip (ipv4 240 0 0 0, 4)"

definition is_loopback :: "nat \<Rightarrow> bool" where
  "is_loopback ip = in_network ip (ipv4 127 0 0 0, 8)"

definition is_link_local :: "nat \<Rightarrow> bool" where
  "is_link_local ip = in_network ip (ipv4 169 254 0 0, 16)"

definition is_multicast :: "nat \<Rightarrow> bool" where
  "is_multicast ip = in_network ip (ipv4 224 0 0 0, 4)"

subsection \<open>The \<open>ipaddress\<close> module: IPv6 and the two factories\<close>

text \<open>
  An \<open>IPv6Address\<close> is its integer, below \<open>2^128\<close>, and its scope id.
  \<open>ipv6_int_from_string\<close> follows \<open>IPv6Address._ip_int_from_string\<close>: the pieces between
  colons, at least three and at most nine; a last piece with a dot is an IPv4 address and
  is replaced by its two hextets, written with \<open>'%x'\<close>; at most one empty piece between
  the ends (the \<open>::\<close>), whose position is \<open>skip_index\<close>; an empty first or last piece only
  next to it; eight pieces when there is none.  \<open>parse_hextet\<close> takes one to four
  hexadecimal digits (\<open>int('', 16)\<close> raises \<open>ValueError\<close>).
\<close>

definition is_hex_digit :: "char \<Rightarrow> bool" where
  "is_hex_digit c = (c \<in> set ''0123456789ABCDEFabcdef'')"

definition hex_value :: "char \<Rightarrow> nat" where
  "hex_value c =
     (if c \<in> set ''ABCDEF'' then 10 + length (takeWhile (\<lambda>d. d \<noteq> c) ''ABCDEF'')
      else length (takeWhile (\<lambda>d. d \<noteq> c) ''0123456789abcdef''))"

definition parse_hextet :: "string \<Rightarrow> nat option" where
  "parse_hextet hextet_str =
     (if \<not> list_all is_hex_digit hextet_str then None
      else if length hextet_str > 4 then None
      else if hextet_str = [] then None
      else Some (foldl (\<lambda>n c. 16 * n + hex_value c) 0 hextet_str))"

text \<open>\<open>'%x' % n\<close>\<close>

function hex_str :: "nat \<Rightarrow> string" where
  "hex_str n = (if n < 16 then [hex_char n] else hex_str (n div 16) @ [hex_char (n mod 16)])"
  by pat_completeness auto
termination
  by (relation "measure (\<lambda>n. n)") auto

declare hex_str.simps [simp del]

text \<open>The two loops \<open>ip_int <<= 16; ip_int |= cls._parse_hextet(parts[i])\<close>.\<close>

fun parse_hextets :: "nat \<Rightarrow> string list \<Rightarrow> nat option" where
  "parse_hextets ip_int [] = Some ip_int"
| "parse_hextets ip_int (part # parts) =
     (case parse_hextet part of
        None \<Rightarrow> None
      | Some hextet \<Rightarrow> parse_hextets (ip_int * 65536 + hextet) parts)"

definition ipv6_int_from_string :: "string \<Rightarrow> nat option" where
  "ipv6_int_from_string ip_str =
     (if ip_str = [] then None
      else
        (let parts0 = split_on CHR '':'' ip_str
         in if length parts0 < 3 then None
            else
              (case (if CHR ''.'' \<in> set (last parts0)
                     then (case IPv4Address (last parts0) of
                             None \<Rightarrow> None
                           | Some ipv4_int \<Rightarrow>
                               Some (butlast parts0 @
                                     [hex_str (ipv4_int div 65536 mod 65536),
                                      hex_str (ipv4_int mod 65536)]))
                     else Some parts0) of
                 None \<Rightarrow> None
               | Some parts \<Rightarrow>
                   if length parts > 9 then None
                   else
                     (let between = butlast (tl parts)
                      in if length (filter (\<lambda>part. part = []) between) > 1 then None
                         else if [] \<in> set between then
                           (let skip_index = 1 + length (takeWhile (\<lambda>part. part \<noteq> []) between);
                                parts_hi = skip_index - (if hd parts = [] then 1 else 0);
                                parts_lo = length parts - skip_index - 1 -
                                           (if last parts = [] then 1 else 0);
                                parts_skipped = 8 - (parts_hi + parts_lo)
                            in if hd parts = [] \<and> parts_hi \<noteq> 0 then None
                               else if last parts = [] \<and> parts_lo \<noteq> 0 then None
                               else if parts_skipped < 1 then None
                               else
                                 (case parse_hextets 0 (take parts_hi parts) of
                                    None \<Rightarrow> None
                                  | Some ip_int \<Rightarrow>
                                      parse_hextets (ip_int * 2 ^ (16 * parts_skipped))
                                        (drop (length parts - parts_lo) parts)))
                         else if length parts \<noteq> 8 then None
                         else if hd parts = [] then None
                         else if last parts = [] then None
                         else parse_hextets 0 parts))))"

text \<open>\<open>ip_str.partition('%')\<close>: a scope id, when there is one, is not empty and has no \<open>%\<close>.\<close>

definition split_scope_id :: "string \<Rightarrow> (string \<times> string option) option" where
  "split_scope_id ip_str =
     (if CHR ''%'' \<notin> set ip_str then Some (ip_str, None)
      else
        (let addr = takeWhile (\<lambda>c. c \<noteq> CHR ''%'') ip_str;
             scope_id = tl (dropWhile (\<lambda>c. c \<noteq> CHR ''%'') ip_str)
         in if scope_id = [] \<or> CHR ''%'' \<in> set scope_id then None
            else Some (addr, Some scope_id)))"

definition IPv6Address :: "string \<Rightarrow> (nat \<times> string option) option" where
  "IPv6Address addr_str =
     (if CHR ''/'' \<in> set addr_str then None
      else case split_scope_id addr_str of
             None \<Rightarrow> None
           | Some (addr, scope_id) \<Rightarrow>
               (case ipv6_int_from_string addr of
                  None \<Rightarrow> None
                | Some ip_int \<Rightarrow> Some (ip_int, scope_id)))"

text \<open>
  \<open>IPv6Network(s, strict)\<close>: the network address and the prefix length, which is written
  in ASCII digits and is at most 128.
\<close>

definition IPv6Network :: "string \<Rightarrow> bool \<Rightarrow> network option" where
  "IPv6Network s strict =
     (let parts = split_on CHR ''/'' s
      in if length parts > 2 then None
         else case IPv6Address (hd parts) of
                None \<Rightarrow> None
              | Some (ip, scope_id) \<Rightarrow>
                  (case (if length parts = 2 then py_int (parts ! 1) else Some 128) of
                     None \<Rightarrow> None
                   | Some prefixlen \<Rightarrow>
                       if prefixlen > 128 then None
                       else if strict \<and> ip mod 2 ^ (128 - prefixlen) \<noteq> 0 then None
                       else Some (ip div 2 ^ (128 - prefixlen) * 2 ^ (128 - prefixlen),
                                  prefixlen)))"

text \<open>
  The factories \<open>ipaddress.ip_address\<close> and \<open>ipaddress.ip_network\<close> try version 4, then
  version 6.  With \<open>strict\<close>, the \<open>ValueError\<close> of \<open>IPv4Network\<close> for host bits leaves
  \<open>ip_network\<close> at once, where the definition goes on to \<open>IPv6Network\<close>: that one raises
  as well, since the address part was an IPv4 address and has no colon (lemma
  \<open>IPv6Network_after_host_bits\<close>).

  The generators below call the factories on strings that they write themselves from
  decimal numbers, dots and a slash.  Such a string has no colon and is no IPv6 literal,
  so that the factory answers what its version 4 class answers (lemmas
  \<open>ip_address_no_colon\<close>, \<open>ip_network_no_colon\<close>, \<open>ip_address_str_octets\<close>,
  \<open>ip_network_str_octets\<close>); there the definitions call
  \<open>IPv4Address\<close> and \<open>IPv4Network\<close>, whose results they read (\<open>is_private\<close>, \<open>str\<close>).
\<close>

datatype 'a ip = IPv4 'a | IPv6 'a

definition ip_address :: "string \<Rightarrow> nat ip option" where
  "ip_address address =
     (case IPv4Address address of
        Some a \<Rightarrow> Some (IPv4 a)
      | None \<Rightarrow> (case IPv6Address address of
                   Some (a, scope_id) \<Rightarrow> Some (IPv6 a)
                 | None \<Rightarrow> None))"

definition ip_network :: "string \<Rightarrow> bool \<Rightarrow> network ip option" where
  "ip_network address strict =
     (case IPv4Network address strict of
        Some net \<Rightarrow> Some (IPv4 net)
      | None \<Rightarrow> (case IPv6Network address strict of
                   Some net \<Rightarrow> Some (IPv6 net)
                 | None \<Rightarrow> None))"

subsection \<open>Classification of addresses\<close>

definition RFC1918_PRIVATE_RANGES :: "network list" where
  "RFC1918_PRIVATE_RANGES = [(ipv4 10 0 0 0, 8), (ipv4 172 16 0 0, 12), (ipv4 192 168 0 0, 16)]"

definition INTERNAL_RANGES :: "network list" where
  "INTERNAL_RANGES = [(ipv4 127 0 0 0, 8), (ipv4 169 254 0 0, 16)]"

text \<open>
  \<open>ip in network\<close> for the networks of the two lists, which are IPv4 networks: an
  \<open>IPv6Address\<close> is in none of them (\<open>__contains__\<close> compares the versions first).
\<close>

fun contains :: "network \<Rightarrow> nat ip \<Rightarrow> bool" where
  "contains net (IPv4 a) = in_network a net"
| "contains net (IPv6 a) = False"

definition is_private_ip :: "string \<Rightarrow> bool" where
  "is_private_ip ip_str =
     (case ip_address ip_str of
        None \<Rightarrow> False
      | Some ip \<Rightarrow>
          if list_ex (\<lambda>network. contains network ip) RFC1918_PRIVATE_RANGES then True
          else if list_ex (\<lambda>network. contains network ip) INTERNAL_RANGES then True
          else False)"

text \<open>
  \<open>int(parts[1])\<close> and \<open>ip_network(ip_str, strict=True)\<close> are in one \<open>try\<close>: a
  \<open>ValueError\<close> of either gives \<open>(False, None)\<close>.
\<close>

definition is_network_address :: "string \<Rightarrow> bool \<times> nat option" where
  "is_network_address ip_str =
     (if CHR ''/'' \<notin> set ip_str then (False, None)
      else case py_int (split_on CHR ''/'' ip_str ! 1) of
             None \<Rightarrow> (False, None)
           | Some prefix_len \<Rightarrow>
               (case ip_network ip_str True of
                  None \<Rightarrow> (False, None)
                | Some net \<Rightarrow> (True, Some prefix_len)))"

text \<open>\<open>ip_str.split("/", 1)\<close> cuts at the first slash only.\<close>

definition parse_ip_with_cidr :: "string \<Rightarrow> string \<times> string option" where
  "parse_ip_with_cidr ip_str =
     (if CHR ''/'' \<in> set ip_str
      then (takeWhile (\<lambda>c. c \<noteq> CHR ''/'') ip_str,
            Some (''/'' @ tl (dropWhile (\<lambda>c. c \<noteq> CHR ''/'') ip_str)))
      else (ip_str, None))"

subsection \<open>Generators of addresses and networks\<close>

definition generate_private_ipv4 :: "rng \<Rightarrow> string \<times> rng" where
  "generate_private_ipv4 rng =
     (case choice [''10'', ''172'', ''192.168''] rng of (range_choice, r0) \<Rightarrow>
        if range_choice = ''10'' then
          (case randint 0 255 r0 of (b, r1) \<Rightarrow>
           case randint 0 255 r1 of (c, r2) \<Rightarrow>
           case randint 1 254 r2 of (d, r3) \<Rightarrow> (str_octets 10 b c d, r3))
        else if range_choice = ''172'' then
          (case randint 16 31 r0 of (b, r1) \<Rightarrow>
           case randint 0 255 r1 of (c, r2) \<Rightarrow>
           case randint 1 254 r2 of (d, r3) \<Rightarrow> (str_octets 172 b c d, r3))
        else
          (case randint 0 255 r0 of (c, r1) \<Rightarrow>
           case randint 1 254 r1 of (d, r2) \<Rightarrow> (str_octets 192 168 c d, r2)))"

text \<open>
  One turn of the loop of \<open>generate_public_ipv4\<close>: the candidate, whether it passes, and
  the source after its four draws.
\<close>

definition public_ipv4_candidate :: "rng \<Rightarrow> string \<times> bool \<times> rng" where
  "public_ipv4_candidate rng =
     (case randint 1 223 rng of (a, r1) \<Rightarrow>
      case randint 0 255 r1 of (b, r2) \<Rightarrow>
      case randint 0 255 r2 of (c, r3) \<Rightarrow>
      case randint 1 254 r3 of (d, r4) \<Rightarrow>
        (let ip_str = str_octets a b c d
         in (ip_str,
             (case IPv4Address ip_str of
                None \<Rightarrow> False
              | Some ip \<Rightarrow> \<not> (is_private ip \<or> is_loopback ip \<or> is_link_local ip \<or>
                               is_multicast ip \<or> is_reserved ip)),
             r4)))"

text \<open>\<open>while True\<close>: the loop ends only by returning; \<open>None\<close> is a run that never returns.\<close>

partial_function (option) generate_public_ipv4 :: "rng \<Rightarrow> (string \<times> rng) option" where
  "generate_public_ipv4 rng =
     (if fst (snd (public_ipv4_candidate rng))
      then Some (fst (public_ipv4_candidate rng), snd (snd (public_ipv4_candidate rng)))
      else generate_public_ipv4 (snd (snd (public_ipv4_candidate rng))))"

definition generate_private_network :: "nat \<Rightarrow> rng \<Rightarrow> string \<times> rng" where
  "generate_private_network prefix_len rng =
     (case
        (if prefix_len \<le> 8 then
           (case randint 0 255 rng of (second, r1) \<Rightarrow>
            case randint 0 255 r1 of (third, r2) \<Rightarrow> ((10, second, third, 0), r2))
         else if prefix_len \<le> 12 then
           (case randint 16 31 rng of (second, r1) \<Rightarrow>
            case randint 0 255 r1 of (third, r2) \<Rightarrow> ((172, second, third, 0), r2))
         else if prefix_len \<le> 16 then
           (case choice [True, False] rng of (pick, r0) \<Rightarrow>
            if pick then
              (case randint 0 255 r0 of (third, r1) \<Rightarrow> ((192, 168, third, 0), r1))
            else
              (case randint 0 255 r0 of (second, r1) \<Rightarrow>
               case randint 0 255 r1 of (third, r2) \<Rightarrow> ((10, second, third, 0), r2)))
         else
           (case choice [''192.168'', ''10'', ''172''] rng of (pick, r0) \<Rightarrow>
            if pick = ''192.168'' then
              (case randint 0 255 r0 of (third, r1) \<Rightarrow> ((192, 168, third, 0), r1))
            else if pick = ''10'' then
              (case randint 0 255 r0 of (second, r1) \<Rightarrow>
               case randint 0 255 r1 of (third, r2) \<Rightarrow> ((10, second, third, 0), r2))
            else
              (case randint 16 31 r0 of (second, r1) \<Rightarrow>
               case randint 0 255 r1 of (third, r2) \<Rightarrow> ((172, second, third, 0), r2))))
      of ((first, second, third, fourth), r) \<Rightarrow>
        (case IPv4Network (str_octets first second third fourth @ ''/'' @ str_nat prefix_len) False of
           Some net \<Rightarrow> (str_network net, r)
         | None \<Rightarrow>
             (case randint 0 255 r of (x, r') \<Rightarrow>
              case randint 0 255 r' of (y, r'') \<Rightarrow>
                (''10.'' @ str_nat x @ ''.'' @ str_nat y @ ''.0/'' @ str_nat prefix_len, r''))))"

text \<open>
  The \<open>for\<close> loop of \<open>generate_public_network\<close>, by the number of attempts left; it
  answers \<open>None\<close> when they are used up.
\<close>

fun public_network_attempts :: "nat \<Rightarrow> nat \<Rightarrow> rng \<Rightarrow> string option \<times> rng" where
  "public_network_attempts 0 prefix_len rng = (None, rng)"
| "public_network_attempts (Suc n) prefix_len rng =
     (case randint 1 223 rng of (first, r1) \<Rightarrow>
      case randint 0 255 r1 of (second, r2) \<Rightarrow>
      case randint 0 255 r2 of (third, r3) \<Rightarrow>
      case randint 0 255 r3 of (fourth, r4) \<Rightarrow>
        (case IPv4Address (str_octets first second third fourth) of
           None \<Rightarrow> public_network_attempts n prefix_len r4
         | Some test_ip \<Rightarrow>
             if is_private test_ip \<or> is_reserved test_ip \<or> is_loopback test_ip \<or>
                is_multicast test_ip
             then public_network_attempts n prefix_len r4
             else
               (case IPv4Network
                       (str_octets first second third fourth @ ''/'' @ str_nat prefix_len) False of
                  None \<Rightarrow> public_network_attempts n prefix_len r4
                | Some net \<Rightarrow>
                    if is_private (fst net) \<or> is_reserved (fst net) \<or> is_loopback (fst net)
                    then public_network_attempts n prefix_len r4
                    else (Some (str_network net), r4))))"

definition generate_public_network :: "nat \<Rightarrow> rng \<Rightarrow> string \<times> rng" where
  "generate_public_network prefix_len rng =
     (case public_network_attempts 200 prefix_len rng of
        (Some s, r) \<Rightarrow> (s, r)
      | (None, r) \<Rightarrow>
          (case choice [45, 52, 54, 63, 74, 89, 104, 142, 157, 185, 199, 216] r of
             (first, r1) \<Rightarrow>
           case randint 0 255 r1 of (second, r2) \<Rightarrow>
           case randint 0 255 r2 of (third, r3) \<Rightarrow>
             (case IPv4Network (str_octets first second third 0 @ ''/'' @ str_nat prefix_len) False of
                Some net \<Rightarrow> (str_network net, r3)
              | None \<Rightarrow>
                  (case randint 0 255 r3 of (x, r4) \<Rightarrow>
                   case randint 0 255 r4 of (y, r5) \<Rightarrow>
                     (''45.'' @ str_nat x @ ''.'' @ str_nat y @ ''.0/'' @ str_nat prefix_len, r5)))))"

subsection \<open>The pattern of an address\<close>

text \<open>
  \<open>re.search(r'(\d{1,3}\.\d{1,3}\.\d{1,3}\.\d{1,3})', s)\<close>.  At one position the
  pattern matches when each of the first three runs of digits has one to three digits
  and a dot behind it; of the last run it takes up to three digits.  The search returns
  the match at the first position that has one.
\<close>

definition digits_dot :: "string \<Rightarrow> (string \<times> string) option" where
  "digits_dot s =
     (let ds = takeWhile is_digit s; rest = dropWhile is_digit s
      in if 1 \<le> length ds \<and> length ds \<le> 3 \<and> rest \<noteq> [] \<and> hd rest = CHR ''.''
         then Some (ds, tl rest) else None)"

definition match_ip :: "string \<Rightarrow> string option" where
  "match_ip s =
     (case digits_dot s of None \<Rightarrow> None | Some (d1, s1) \<Rightarrow>
      case digits_dot s1 of None \<Rightarrow> None | Some (d2, s2) \<Rightarrow>
      case digits_dot s2 of None \<Rightarrow> None | Some (d3, s3) \<Rightarrow>
        (let d4 = take 3 (takeWhile is_digit s3)
         in if d4 = [] then None else Some (d1 @ ''.'' @ d2 @ ''.'' @ d3 @ ''.'' @ d4)))"

fun search_ip :: "string \<Rightarrow> string option" where
  "search_ip [] = match_ip []"
| "search_ip (x # xs) =
     (case match_ip (x # xs) of Some m \<Rightarrow> Some m | None \<Rightarrow> search_ip xs)"

subsection \<open>Script of a name\<close>

text \<open>
  \<open>is_space\<close> is \<open>str.isspace\<close> and \<open>is_ascii_alpha\<close> is \<open>isascii() and isalpha()\<close> on
  the code points below 256; of the Latin Extended range \<open>U+00C0..U+024F\<close> these code
  points meet the lower bound only.  The test \<open>latin_count / non_space_count > 0.8\<close> is
  written without the division.
\<close>

definition is_space :: "char \<Rightarrow> bool" where
  "is_space c = ((of_char c :: nat) \<in> set [9, 10, 11, 12, 13, 28, 29, 30, 31, 32, 133, 160])"

definition is_ascii_alpha :: "char \<Rightarrow> bool" where
  "is_ascii_alpha c =
     ((65 \<le> (of_char c :: nat) \<and> (of_char c :: nat) \<le> 90) \<or>
      (97 \<le> (of_char c :: nat) \<and> (of_char c :: nat) \<le> 122))"

definition count_latin :: "string \<Rightarrow> nat \<times> nat" where
  "count_latin text =
     foldl (\<lambda>(latin_count, non_space_count) char.
              if is_space char \<or> char \<in> set [CHR ''-'', CHR 0x27, CHR ''.'']
              then (latin_count, non_space_count)
              else if is_ascii_alpha char then (latin_count + 1, non_space_count + 1)
              else if 192 \<le> (of_char char :: nat) then (latin_count + 1, non_space_count + 1)
              else (latin_count, non_space_count + 1))
           (0, 0) text"

definition is_latin_script :: "string \<Rightarrow> bool" where
  "is_latin_script text =
     (if text = [] then True
      else case count_latin text of (latin_count, non_space_count) \<Rightarrow>
             if non_space_count = 0 then True
             else 10 * latin_count > 8 * non_space_count)"

definition filter_latin_names :: "string list \<Rightarrow> string list" where
  "filter_latin_names names = filter is_latin_script names"

subsection \<open>The class \<open>SyntheticGenerator\<close>\<close>

text \<open>
  The packages the generator calls are parameters, gathered in \<open>library\<close>: the providers
  of Faker (each reads the random source of the Faker instance and returns its text;
  \<open>random_number\<close> returns the digits of its number), \<open>seed_instance\<close> (the source a seed
  starts), \<open>hashlib.md5\<close>, \<open>uuid.uuid4\<close> (which reads the operating system's source),
  and the data the module loads when it can: \<open>_detect_name_country\<close> and
  \<open>_get_names_for_country\<close> over names-dataset (the three lists \<open>first_male\<close>,
  \<open>first_female\<close>, \<open>last\<close>), and the \<open>name\<close> entry of every city of geonamescache.

  The generator has three sources of randomness: the one of its Faker instance, the one
  of the module \<open>random\<close>, and the operating system's.  Only the first is reseeded by
  \<open>generate\<close>.  The methods \<open>_generate_...\<close> are written without the underscore.
\<close>

datatype provider =
    Name | Email | Phone_number | Credit_card_number | Ssn | Bban | Random_uppercase_letter
  | Random_number nat | Passport_number | City | Street_address | Date | Url | Iban
  | First_name | Last_name

record library =
  faker :: "provider \<Rightarrow> rng \<Rightarrow> string \<times> rng"
  seed_instance :: "nat \<Rightarrow> rng"
  md5 :: "string \<Rightarrow> 128 word"
  uuid4 :: "rng \<Rightarrow> string \<times> rng"
  names_dataset_available :: bool
  detect_name_country :: "string \<Rightarrow> string option"
  get_names_for_country :: "string \<Rightarrow> nat \<Rightarrow> string list \<times> string list \<times> string list"
  geonames_cities :: "string option list"

record gen_state =
  faker_rng :: rng
  global_rng :: rng
  os_urandom :: rng

definition fake :: "library \<Rightarrow> provider \<Rightarrow> gen_state \<Rightarrow> string \<times> gen_state" where
  "fake lib p st = (case faker lib p (faker_rng st) of (s, r) \<Rightarrow> (s, st \<lparr> faker_rng := r \<rparr>))"

definition random' :: "(rng \<Rightarrow> 'a \<times> rng) \<Rightarrow> gen_state \<Rightarrow> 'a \<times> gen_state" where
  "random' f st = (case f (global_rng st) of (x, r) \<Rightarrow> (x, st \<lparr> global_rng := r \<rparr>))"

text \<open>\<open>int(hashlib.md5(h.encode()).hexdigest()[:8], 16)\<close>: the upper 32 bits of the digest.\<close>

definition seed_value :: "128 word \<Rightarrow> nat" where
  "seed_value digest = unat (drop_bit 96 digest)"

definition generate_person :: "library \<Rightarrow> string option \<Rightarrow> gen_state \<Rightarrow> string \<times> gen_state" where
  "generate_person lib original st =
     (case (case original of
              None \<Rightarrow> None
            | Some orig \<Rightarrow>
                if orig = [] \<or> \<not> names_dataset_available lib then None
                else case detect_name_country lib orig of
                       None \<Rightarrow> None
                     | Some country \<Rightarrow>
                         if country = [] then None
                         else case get_names_for_country lib country 100 of
                                (males, females, lasts) \<Rightarrow>
                                  if is_latin_script orig
                                  then Some (filter_latin_names males,
                                             filter_latin_names females,
                                             filter_latin_names lasts)
                                  else Some (males, females, lasts))
      of
        Some (first_male, first_female, last_names) \<Rightarrow>
          if (first_male \<noteq> [] \<or> first_female \<noteq> []) \<and> last_names \<noteq> [] then
            (case random' (choice [True, False]) st of (coin, st1) \<Rightarrow>
             case (if coin \<and> first_male \<noteq> [] then random' (choice first_male) st1
                   else if first_female \<noteq> [] then random' (choice first_female) st1
                   else if first_male \<noteq> [] then random' (choice first_male) st1
                   else fake lib First_name st1) of (first, st2) \<Rightarrow>
             case random' (choice last_names) st2 of (last', st3) \<Rightarrow>
               (first @ '' '' @ last', st3))
          else fake lib Name st
      | None \<Rightarrow> fake lib Name st)"

definition generate_driver_license :: "library \<Rightarrow> gen_state \<Rightarrow> string \<times> gen_state" where
  "generate_driver_license lib st =
     (case fake lib Random_uppercase_letter st of (letter, st1) \<Rightarrow>
      case fake lib (Random_number 12) st1 of (number, st2) \<Rightarrow> (letter @ number, st2))"

definition generate_itin :: "gen_state \<Rightarrow> string \<times> gen_state" where
  "generate_itin st =
     (case random' (randint 70 99) st of (middle, st1) \<Rightarrow>
      case random' (randint 1000 9999) st1 of (last', st2) \<Rightarrow>
      case random' (randint 0 9) st2 of (d1, st3) \<Rightarrow>
      case random' (randint 0 9) st3 of (d2, st4) \<Rightarrow>
        (''9'' @ str_nat d1 @ str_nat d2 @ ''-'' @ str_nat middle @ ''-'' @ str_nat last', st4))"

text \<open>
  \<open>generate_public_ipv4\<close> may not return, so \<open>generate_ip\<close> has an optional result.  A
  suffix that \<open>parse_ip_with_cidr\<close> returns starts with the slash and is never empty.
\<close>

definition lift_random ::
  "(rng \<Rightarrow> ('a \<times> rng) option) \<Rightarrow> gen_state \<Rightarrow> ('a \<times> gen_state) option" where
  "lift_random f st =
     (case f (global_rng st) of None \<Rightarrow> None | Some (x, r) \<Rightarrow> Some (x, st \<lparr> global_rng := r \<rparr>))"

definition generate_ip :: "string option \<Rightarrow> gen_state \<Rightarrow> (string \<times> gen_state) option" where
  "generate_ip original st =
     (case original of
        None \<Rightarrow> lift_random generate_public_ipv4 st
      | Some orig \<Rightarrow>
          (case is_network_address orig of
             (True, Some prefix_len) \<Rightarrow>
               (let ip_part = hd (split_on CHR ''/'' orig)
                in if is_private_ip ip_part
                   then Some (random' (generate_private_network prefix_len) st)
                   else Some (random' (generate_public_network prefix_len) st))
           | _ \<Rightarrow>
               (case parse_ip_with_cidr orig of (ip_part, cidr_suffix) \<Rightarrow>
                  (case search_ip ip_part of
                     None \<Rightarrow> lift_random generate_public_ipv4 st
                   | Some ip_str \<Rightarrow>
                       (case (if is_private_ip ip_str
                              then Some (random' generate_private_ipv4 st)
                              else lift_random generate_public_ipv4 st) of
                          None \<Rightarrow> None
                        | Some (new_ip, st') \<Rightarrow>
                            (case cidr_suffix of
                               Some suffix \<Rightarrow> Some (new_ip @ suffix, st')
                             | None \<Rightarrow> Some (new_ip, st')))))))"

text \<open>
  The default of \<open>city.get("name", self._faker.city())\<close> is evaluated before the lookup:
  Faker's source advances also when the city has a name.
\<close>

definition generate_location :: "library \<Rightarrow> gen_state \<Rightarrow> string \<times> gen_state" where
  "generate_location lib st =
     (if geonames_cities lib \<noteq> [] then
        (case random' (choice (geonames_cities lib)) st of (city, st1) \<Rightarrow>
         case fake lib City st1 of (fallback, st2) \<Rightarrow>
           (case city of Some n \<Rightarrow> (n, st2) | None \<Rightarrow> (fallback, st2)))
      else fake lib City st)"

definition generate_guid :: "library \<Rightarrow> gen_state \<Rightarrow> string \<times> gen_state" where
  "generate_guid lib st =
     (case uuid4 lib (os_urandom st) of (s, r) \<Rightarrow> (s, st \<lparr> os_urandom := r \<rparr>))"

definition nrp_options :: "string list" where
  "nrp_options = [''Group A'', ''Organization B'', ''Community C'', ''Association D'']"

definition generate_nrp :: "gen_state \<Rightarrow> string \<times> gen_state" where
  "generate_nrp st = random' (choice nrp_options) st"

definition generate_medical_license :: "library \<Rightarrow> gen_state \<Rightarrow> string \<times> gen_state" where
  "generate_medical_license lib st =
     (case fake lib (Random_number 8) st of (number, st1) \<Rightarrow> (''ML'' @ number, st1))"

definition generate_crypto :: "gen_state \<Rightarrow> string \<times> gen_state" where
  "generate_crypto st =
     (case random' (choice [''1'', ''3'', ''bc1'']) st of (prefix, st1) \<Rightarrow>
      case random' (choices ''123456789ABCDEFGHJKLMNPQRSTUVWXYZabcdefghijkmnopqrstuvwxyz'' 32) st1
        of (address, st2) \<Rightarrow> (prefix @ address, st2))"

definition generate_default :: "library \<Rightarrow> gen_state \<Rightarrow> string \<times> gen_state" where
  "generate_default lib st =
     (case fake lib (Random_number 6) st of (number, st1) \<Rightarrow> (''<REDACTED_'' @ number @ ''>'', st1))"

text \<open>
  \<open>generate\<close>: reseed Faker's source when a hash is given and not empty, then call the
  generator that the table \<open>_generators\<close> has for the entity type, or the default.
\<close>

definition generate ::
  "library \<Rightarrow> string \<Rightarrow> string option \<Rightarrow> string option \<Rightarrow> gen_state
     \<Rightarrow> (string \<times> gen_state) option" where
  "generate lib entity_type' original_value original_hash' st =
     (let st0 = (case original_hash' of
                   None \<Rightarrow> st
                 | Some h \<Rightarrow>
                     if h = [] then st
                     else st \<lparr> faker_rng := seed_instance lib (seed_value (md5 lib h)) \<rparr>)
      in if entity_type' = ''PERSON'' then Some (generate_person lib original_value st0)
         else if entity_type' = ''EMAIL_ADDRESS'' then Some (fake lib Email st0)
         else if entity_type' = ''PHONE_NUMBER'' then Some (fake lib Phone_number st0)
         else if entity_type' = ''CREDIT_CARD'' then Some (fake lib Credit_card_number st0)
         else if entity_type' = ''US_SSN'' then Some (fake lib Ssn st0)
         else if entity_type' = ''US_BANK_NUMBER'' then Some (fake lib Bban st0)
         else if entity_type' = ''US_DRIVER_LICENSE'' then Some (generate_driver_license lib st0)
         else if entity_type' = ''US_ITIN'' then Some (generate_itin st0)
         else if entity_type' = ''US_PASSPORT'' then Some (fake lib Passport_number st0)
         else if entity_type' = ''IP_ADDRESS'' then generate_ip original_value st0
         else if entity_type' = ''LOCATION'' then Some (generate_location lib st0)
         else if entity_type' = ''STREET_ADDRESS'' then Some (fake lib Street_address st0)
         else if entity_type' = ''DATE_TIME'' then Some (fake lib Date st0)
         else if entity_type' = ''NRP'' then Some (generate_nrp st0)
         else if entity_type' = ''MEDICAL_LICENSE'' then Some (generate_medical_license lib st0)
         else if entity_type' = ''URL'' then Some (fake lib Url st0)
         else if entity_type' = ''IBAN_CODE'' then Some (fake lib Iban st0)
         else if entity_type' = ''CRYPTO'' then Some (generate_crypto st0)
         else if entity_type' = ''GUID'' then Some (generate_guid lib st0)
         else Some (generate_default lib st0))"

text \<open>
  The classes of \<open>is_private_ip\<close> by octets: the three ranges of RFC 1918, loopback and
  link-local.
\<close>

definition private_octets :: "nat \<Rightarrow> nat \<Rightarrow> bool" where
  "private_octets a b =
     (a = 10 \<or> (a = 172 \<and> 16 \<le> b \<and> b \<le> 31) \<or> (a = 192 \<and> b = 168) \<or> a = 127 \<or>
      (a = 169 \<and> b = 254))"

text \<open>
  The entity types whose generators draw from Faker's source and from nothing else.
\<close>

definition faker_only_types :: "string list" where
  "faker_only_types =
     [''EMAIL_ADDRESS'', ''PHONE_NUMBER'', ''CREDIT_CARD'', ''US_SSN'', ''US_BANK_NUMBER'',
      ''US_DRIVER_LICENSE'', ''US_PASSPORT'', ''STREET_ADDRESS'', ''DATE_TIME'',
      ''MEDICAL_LICENSE'', ''URL'', ''IBAN_CODE'']"

section \<open>Properties of the mapping store\<close>

lemma combined_same_value: "combined v t1 = combined v t2 \<longleftrightarrow> t1 = t2"
  by (simp add: combined_def)






lemma find_append_cases:
  "List.find P (xs @ ys) = (case List.find P xs of Some x \<Rightarrow> Some x | None \<Rightarrow> List.find P ys)"
  by (induction xs) auto

lemma find_update_first:
  assumes "\<And>x. P (f x) = P x"
  shows "List.find P (update_first P f xs) = map_option f (List.find P xs)"
  using assms by (induction xs) auto

lemma map_update_first:
  assumes "\<And>x. k (f x) = k x"
  shows "map k (update_first P f xs) = map k xs"
  using assms by (induction xs) auto

lemma length_update_first: "length (update_first P f xs) = length xs"
  by (induction xs) auto

lemma find_None_key:
  "List.find (matches h t) xs = None \<Longrightarrow> (h, t) \<notin> set (map (\<lambda>m. (original_hash m, entity_type m)) xs)"
  by (induction xs) (auto simp: matches_def split: if_splits)

lemma find_Some_matches: "List.find (matches h t) xs = Some m \<Longrightarrow> matches h t m \<and> m \<in> set xs"
  by (induction xs) (auto split: if_splits)

subsection \<open>What one call does\<close>

lemma get_or_create_missing:
  assumes "query_first db (compute_hash sha v t) t = None"
  shows "get_or_create sha db v t g now =
           Inr ((g t v, True),
                db \<lparr> rows := rows db @
                        [\<lparr> id' = next_id db, original_hash = compute_hash sha v t,
                           substitute = g t v, entity_type = t, first_seen = now,
                           last_used = now, substitution_count = 1 \<rparr>],
                     next_id := Suc (next_id db) \<rparr>)"
  using assms by (simp add: get_or_create_def get_substitute_def create_mapping_def Let_def)

lemma get_or_create_found:
  assumes "query_first db (compute_hash sha v t) t = Some m" and "substitute m \<noteq> []"
  shows "get_or_create sha db v t g now =
           Inr ((substitute m, False),
                db \<lparr> rows := update_first (matches (compute_hash sha v t) t)
                        (\<lambda>r. r \<lparr> substitution_count := substitution_count r + 1, last_used := now \<rparr>)
                        (rows db) \<rparr>)"
  using assms by (simp add: get_or_create_def get_substitute_def increment_count_def Let_def)

lemma get_or_create_found_empty:
  assumes "query_first db (compute_hash sha v t) t = Some m" and "substitute m = []"
  shows "get_or_create sha db v t g now = Inl IntegrityError"
  using assms by (simp add: get_or_create_def get_substitute_def create_mapping_def Let_def)

lemma get_or_create_interleaved_id:
  "get_or_create_interleaved sha db (\<lambda>d. d) v t g now = get_or_create sha db v t g now"
  by (simp add: get_or_create_interleaved_def get_or_create_def)

subsection \<open>Rows are kept\<close>

lemma row_kept_refl: "row_kept m m"
  by (simp add: row_kept_def)

lemma row_kept_trans: "row_kept a b \<Longrightarrow> row_kept b c \<Longrightarrow> row_kept a c"
  by (auto simp: row_kept_def)

lemma list_all2_row_kept_refl: "list_all2 row_kept xs xs"
  by (simp add: list_all2_refl row_kept_refl)

lemma rows_kept_refl: "rows_kept db db"
  by (simp add: rows_kept_def list_all2_row_kept_refl)

lemma rows_kept_trans:
  assumes "rows_kept a b" and "rows_kept b c"
  shows "rows_kept a c"
proof -
  let ?n = "length (rows a)"
  have len: "?n \<le> length (rows b)" "length (rows b) \<le> length (rows c)"
    using assms by (simp_all add: rows_kept_def)
  have ab: "list_all2 row_kept (rows a) (take ?n (rows b))"
    using assms(1) by (simp add: rows_kept_def)
  have "list_all2 row_kept (take ?n (rows b)) (take ?n (take (length (rows b)) (rows c)))"
    using assms(2) by (simp add: rows_kept_def list_all2_takeI del: take_take)
  then have bc: "list_all2 row_kept (take ?n (rows b)) (take ?n (rows c))"
    using len by (simp add: min_def)
  have "list_all2 row_kept (rows a) (take ?n (rows c))"
    using ab bc by (rule list_all2_trans[rotated]) (rule row_kept_trans)
  then show ?thesis using len by (simp add: rows_kept_def)
qed

lemma list_all2_update_first:
  "list_all2 row_kept xs
     (update_first P (\<lambda>r. r \<lparr> substitution_count := substitution_count r + 1, last_used := now \<rparr>) xs)"
proof (induction xs)
  case Nil
  then show ?case by simp
next
  case (Cons x xs)
  have "row_kept x (x \<lparr> substitution_count := substitution_count x + 1, last_used := now \<rparr>)"
    by (simp add: row_kept_def)
  with Cons show ?case by (simp add: list_all2_row_kept_refl row_kept_refl)
qed

lemma get_or_create_rows_kept:
  assumes "get_or_create sha db v t g now = Inr (r, db')"
  shows "rows_kept db db'"
proof (cases "query_first db (compute_hash sha v t) t")
  case None
  from assms get_or_create_missing[OF None, of g now]
  show ?thesis by (auto simp: rows_kept_def list_all2_row_kept_refl)
next
  case (Some m)
  show ?thesis
  proof (cases "substitute m = []")
    case True
    with Some assms show ?thesis by (simp add: get_or_create_found_empty)
  next
    case False
    from assms get_or_create_found[OF Some False, of g now]
    show ?thesis
      by (auto simp: rows_kept_def length_update_first list_all2_update_first)
  qed
qed

lemma get_or_create_all_rows_kept:
  "get_or_create_all sha db cs = Inr db' \<Longrightarrow> rows_kept db db'"
proof (induction cs arbitrary: db)
  case Nil
  then show ?case by (simp add: rows_kept_refl)
next
  case (Cons c cs)
  obtain v t g now where c: "c = (v, t, g, now)" by (cases c) auto
  from Cons.prems c obtain r d where
    step: "get_or_create sha db v t g now = Inr (r, d)" and
    rest: "get_or_create_all sha d cs = Inr db'"
    by (auto split: sum.splits)
  from get_or_create_rows_kept[OF step] Cons.IH[OF rest] show ?case
    by (rule rows_kept_trans)
qed

lemma find_kept:
  assumes "list_all2 row_kept xs (take (length xs) ys)" and "length xs \<le> length ys"
    and "List.find (matches h t) xs = Some m"
  shows "\<exists>m'. List.find (matches h t) ys = Some m' \<and> row_kept m m'"
  using assms
proof (induction xs arbitrary: ys)
  case Nil
  then show ?case by simp
next
  case (Cons x xs)
  then obtain y ys' where ys: "ys = y # ys'" by (cases ys) auto
  with Cons.prems have xy: "row_kept x y" and
    tl: "list_all2 row_kept xs (take (length xs) ys')" "length xs \<le> length ys'"
    by simp_all
  have same: "matches h t y = matches h t x"
    using xy by (simp add: row_kept_def matches_def)
  show ?case
  proof (cases "matches h t x")
    case True
    with Cons.prems(3) xy same ys show ?thesis by simp
  next
    case False
    with Cons.prems(3) have "List.find (matches h t) xs = Some m" by simp
    from Cons.IH[OF tl this] False same ys show ?thesis by simp
  qed
qed

lemma query_first_kept:
  assumes "rows_kept db db'" and "query_first db h t = Some m"
  shows "\<exists>m'. query_first db' h t = Some m' \<and> row_kept m m'"
  using assms find_kept[of "rows db" "rows db'" h t m]
  by (simp add: rows_kept_def query_first_def)

text \<open>
  Consistency where the stored substitute is not empty: once a call has returned \<open>s\<close> for
  \<open>(v, t)\<close>, every later call for \<open>(v, t)\<close>, after any run of successful calls, returns
  \<open>(s, False)\<close>, whatever generator it is given.
\<close>

lemma get_or_create_stored:
  assumes "get_or_create sha db v t g now = Inr ((s, c), db')"
  shows "\<exists>m. query_first db' (compute_hash sha v t) t = Some m \<and> substitute m = s"
proof (cases "query_first db (compute_hash sha v t) t")
  case None
  from assms get_or_create_missing[OF None, of g now] None[unfolded query_first_def]
  show ?thesis by (auto simp: query_first_def find_append_cases matches_def)
next
  case (Some m)
  show ?thesis
  proof (cases "substitute m = []")
    case True
    with Some assms show ?thesis by (simp add: get_or_create_found_empty)
  next
    case False
    have "List.find (matches (compute_hash sha v t) t)
            (update_first (matches (compute_hash sha v t) t)
               (\<lambda>r. r \<lparr> substitution_count := substitution_count r + 1, last_used := now \<rparr>)
               (rows db))
          = Some (m \<lparr> substitution_count := substitution_count m + 1, last_used := now \<rparr>)"
      using Some by (simp add: find_update_first matches_def query_first_def)
    with assms get_or_create_found[OF Some False, of g now]
    show ?thesis by (auto simp: query_first_def)
  qed
qed

lemma get_or_create_consistent:
  assumes first: "get_or_create sha db v t g now = Inr ((s, c), db1)"
    and nonempty: "s \<noteq> []"
    and later: "get_or_create_all sha db1 cs = Inr db2"
  shows "\<exists>db3. get_or_create sha db2 v t g' now' = Inr ((s, False), db3)"
proof -
  from get_or_create_stored[OF first] obtain m where
    m: "query_first db1 (compute_hash sha v t) t = Some m" "substitute m = s" by blast
  from query_first_kept[OF get_or_create_all_rows_kept[OF later] m(1)] obtain m' where
    m': "query_first db2 (compute_hash sha v t) t = Some m'" "row_kept m m'" by blast
  then have "substitute m' = s" using m(2) by (simp add: row_kept_def)
  with get_or_create_found[OF m'(1), of g' now'] nonempty show ?thesis by simp
qed

subsection \<open>The unique index\<close>

lemma create_mapping_unique:
  assumes "unique_index db" and "create_mapping sha db v s t now = Inr (m, db')"
  shows "unique_index db'"
  using assms find_None_key[of "compute_hash sha v t" t "rows db"]
  by (auto simp: create_mapping_def unique_index_def query_first_def Let_def split: if_splits)

lemma increment_count_unique:
  assumes "unique_index db"
  shows "unique_index (snd (increment_count sha db v t now))"
  using assms
  by (auto simp: increment_count_def unique_index_def Let_def map_update_first split: option.splits)

lemma get_or_create_unique:
  assumes "unique_index db" and "get_or_create sha db v t g now = Inr (r, db')"
  shows "unique_index db'"
proof (cases "query_first db (compute_hash sha v t) t")
  case None
  from assms(2) get_or_create_missing[OF None, of g now]
  have "create_mapping sha db v (g t v) t now = Inr (last (rows db'), db')"
    using None by (auto simp: create_mapping_def Let_def)
  with assms(1) show ?thesis by (rule create_mapping_unique)
next
  case (Some m)
  show ?thesis
  proof (cases "substitute m = []")
    case True
    with Some assms show ?thesis by (simp add: get_or_create_found_empty)
  next
    case False
    from assms(2) get_or_create_found[OF Some False, of g now]
    have "db' = snd (increment_count sha db v t now)"
      using Some by (auto simp: increment_count_def Let_def)
    with increment_count_unique[OF assms(1)] show ?thesis by simp
  qed
qed

lemma unique_index_at_most_one:
  assumes "unique_index db"
  shows "length (filter (matches h t) (rows db)) \<le> 1"
proof -
  have "distinct xs \<Longrightarrow> length (filter (\<lambda>x. x = k) xs) \<le> 1" for xs :: "(string \<times> string) list" and k
    by (induction xs) (auto simp: filter_empty_conv)
  from this[OF assms[unfolded unique_index_def], of "(h, t)"]
  have one: "length (filter (\<lambda>x. x = (h, t)) (map (\<lambda>m. (original_hash m, entity_type m)) (rows db))) \<le> 1" .
  have m: "matches h t = (\<lambda>x. original_hash x = h \<and> entity_type x = t)"
    by (rule ext) (simp add: matches_def)
  from one show ?thesis
    by (simp add: filter_map o_def prod_eq_iff m)
qed


section \<open>Claims about the mapping store\<close>

text \<open>
  C10: \<open>compute_hash\<close> depends only on the concatenation \<open>value + "|" + entity_type\<close>:
  two pairs with the same concatenation have the same fingerprint, and the distinct pairs
  \<open>("a|b", "t")\<close> and \<open>("a", "b|t")\<close> are such pairs.
\<close>

theorem compute_hash_separator_collision:
  "(\<forall>v t v' t'. combined v t = combined v' t' \<longrightarrow>
       compute_hash sha v t = compute_hash sha v' t') \<and>
   (''a|b'', ''t'') \<noteq> (''a'', ''b|t'') \<and>
   compute_hash sha ''a|b'' ''t'' = compute_hash sha ''a'' ''b|t''"
  by (simp add: compute_hash_def combined_def)

theorem compute_hash_separator_collision_witness:
  "combined ''x|y'' ''z'' = combined ''x'' ''y|z'' \<and>
   compute_hash (\<lambda>s. of_nat (length s)) ''x|y'' ''z'' =
   compute_hash (\<lambda>s. of_nat (length s)) ''x'' ''y|z''"
proof -
  have c: "combined ''x|y'' ''z'' = combined ''x'' ''y|z''"
    by (simp add: combined_def)
  from compute_hash_separator_collision[of "\<lambda>s. of_nat (length s)"]
  have "\<forall>v t v' t'. combined v t = combined v' t' \<longrightarrow>
          compute_hash (\<lambda>s. of_nat (length s)) v t = compute_hash (\<lambda>s. of_nat (length s)) v' t'"
    by (rule conjunct1)
  with c show ?thesis by blast
qed



text \<open>
  C1 at the failing input, a generator that returns the empty string: the first call
  stores the empty substitute and returns it with \<open>was_created = True\<close>; the second call
  finds the row, takes the empty substitute for a miss, inserts again and raises
  \<open>IntegrityError\<close>, for every generator it is given.
\<close>

theorem get_or_create_empty_substitute:
  "get_or_create sha empty_session v t (\<lambda>et ov. []) now =
     Inr (([], True),
          \<lparr> rows = [\<lparr> id' = 1, original_hash = compute_hash sha v t, substitute = [],
                      entity_type = t, first_seen = now, last_used = now,
                      substitution_count = 1 \<rparr>],
            next_id = 2 \<rparr>) \<and>
   get_or_create sha
     \<lparr> rows = [\<lparr> id' = 1, original_hash = compute_hash sha v t, substitute = [],
                 entity_type = t, first_seen = now, last_used = now,
                 substitution_count = 1 \<rparr>],
       next_id = 2 \<rparr> v t g now' = Inl IntegrityError"
  by (simp add: get_or_create_def get_substitute_def create_mapping_def query_first_def
      matches_def empty_session_def Let_def)

text \<open>
  C2, as stated, fails: the caller's lookup misses on the empty table, another writer
  inserts the row for the same value and type, and the caller's insert raises
  \<open>IntegrityError\<close>, which \<open>get_or_create\<close> does not catch.
\<close>

theorem get_or_create_race_raises:
  "\<forall>sha.
     get_or_create_interleaved sha empty_session
       (\<lambda>db. case get_or_create sha db ''Alice'' ''PERSON'' (\<lambda>et ov. ''Winner'') 1 of
               Inr (r, db') \<Rightarrow> db' | Inl e \<Rightarrow> db)
       ''Alice'' ''PERSON'' (\<lambda>et ov. ''Loser'') 2 = Inl IntegrityError"
  by (simp add: get_or_create_interleaved_def get_or_create_def get_substitute_def
      create_mapping_def query_first_def matches_def empty_session_def Let_def)

text \<open>
  C2, amended: when the lookup misses and a row for the same fingerprint and entity type
  has been inserted before the caller's insert, the insert fails on the unique index and
  \<open>get_or_create\<close> raises \<open>IntegrityError\<close> to its caller, with no second lookup.  The
  table then holds exactly one row for the pair, every successful \<open>get_or_create\<close> keeps
  the index unique, and a later call for the pair returns the stored substitute when that
  is not empty.
\<close>

theorem get_or_create_conflict:
  assumes "query_first db (compute_hash sha v t) t = None"
    and "unique_index (env db)"
    and "query_first (env db) (compute_hash sha v t) t = Some m"
  shows "get_or_create_interleaved sha db env v t g now = Inl IntegrityError \<and>
         length (filter (matches (compute_hash sha v t) t) (rows (env db))) = 1 \<and>
         (\<forall>v' t' g' now' r db'.
            get_or_create sha (env db) v' t' g' now' = Inr (r, db') \<longrightarrow> unique_index db') \<and>
         (substitute m \<noteq> [] \<longrightarrow>
            (\<exists>db'. get_or_create sha (env db) v t g' now' = Inr ((substitute m, False), db')))"
proof -
  have raise: "get_or_create_interleaved sha db env v t g now = Inl IntegrityError"
    using assms(1,3)
    by (simp add: get_or_create_interleaved_def get_substitute_def create_mapping_def Let_def)
  from find_Some_matches[OF assms(3)[unfolded query_first_def]]
  have "filter (matches (compute_hash sha v t) t) (rows (env db)) \<noteq> []"
    by (auto simp: filter_empty_conv)
  with unique_index_at_most_one[OF assms(2), of "compute_hash sha v t" t]
  have one: "length (filter (matches (compute_hash sha v t) t) (rows (env db))) = 1"
    by (cases "filter (matches (compute_hash sha v t) t) (rows (env db))") auto
  have inv: "\<forall>v' t' g' now' r db'.
      get_or_create sha (env db) v' t' g' now' = Inr (r, db') \<longrightarrow> unique_index db'"
    using get_or_create_unique[OF assms(2)] by blast
  have again: "substitute m \<noteq> [] \<longrightarrow>
      (\<exists>db'. get_or_create sha (env db) v t g' now' = Inr ((substitute m, False), db'))"
    using get_or_create_found[OF assms(3)] by simp
  from raise one inv again show ?thesis by blast
qed

theorem get_or_create_conflict_witness:
  "query_first empty_session (compute_hash (\<lambda>s. 0) ''Alice'' ''PERSON'') ''PERSON'' = None \<and>
   get_or_create_interleaved (\<lambda>s. 0) empty_session
     (\<lambda>db. db \<lparr> rows := rows db @
                  [\<lparr> id' = 1, original_hash = compute_hash (\<lambda>s. 0) ''Alice'' ''PERSON'',
                     substitute = ''Winner'', entity_type = ''PERSON'', first_seen = 1,
                     last_used = 1, substitution_count = 1 \<rparr>],
               next_id := 2 \<rparr>)
     ''Alice'' ''PERSON'' (\<lambda>et ov. ''Loser'') 2 = Inl IntegrityError"
proof -
  let ?h = "compute_hash (\<lambda>s. 0) ''Alice'' ''PERSON''"
  let ?m = "\<lparr> id' = 1, original_hash = ?h, substitute = ''Winner'', entity_type = ''PERSON'',
              first_seen = 1, last_used = 1, substitution_count = 1 \<rparr>"
  let ?env = "\<lambda>db. db \<lparr> rows := rows db @ [?m], next_id := 2 \<rparr>"
  have a: "query_first empty_session ?h ''PERSON'' = None"
    by (simp add: query_first_def empty_session_def)
  have b: "unique_index (?env empty_session)"
    by (simp add: unique_index_def empty_session_def)
  have c: "query_first (?env empty_session) ?h ''PERSON'' = Some ?m"
    by (simp add: query_first_def empty_session_def matches_def)
  from get_or_create_conflict[where db = empty_session and env = ?env and sha = "\<lambda>s. 0"
      and v = "''Alice''" and t = "''PERSON''" and m = ?m and g = "\<lambda>et ov. ''Loser''" and now = 2,
      OF a b c] a
  show ?thesis by blast
qed

section \<open>Properties of detection and anonymization\<close>

lemma detect_text:
  assumes "d \<in> set (detect analyze language text entity_types thr)"
  shows "det_text d = py_slice text (det_start d) (det_end d)"
  using assms by (auto simp: detect_def Let_def)

lemma detect_sorted: "sorted (map det_start (detect analyze language text entity_types thr))"
  by (simp add: detect_def Let_def)

lemma build_substitutions_from_detection:
  assumes "s \<in> set (build_substitutions detections items)"
  shows "\<exists>d \<in> set detections.
           sub_start s = det_start d \<and> sub_end s = det_end d \<and>
           sub_entity_type s = det_entity_type d \<and>
           sub_original_length s = det_end d - det_start d"
proof -
  from assms obtain d i where
    di: "(d, i) \<in> set (zip (sort_key det_start detections) (sort_key item_start items))" and
    s: "s = \<lparr> sub_start = det_start d, sub_end = det_end d,
              sub_entity_type = det_entity_type d,
              sub_original_length = det_end d - det_start d,
              sub_substitute = item_text i \<rparr>"
    by (auto simp: build_substitutions_def Let_def)
  from di have "d \<in> set (sort_key det_start detections)" by (rule set_zip_leftD)
  then have "d \<in> set detections" by simp
  with s show ?thesis by auto
qed

lemma length_build_substitutions:
  "length (build_substitutions detections items) = min (length detections) (length items)"
  by (simp add: build_substitutions_def Let_def)

lemma anonymize_substitutions:
  assumes "anonymize analyze engine text ets thr lg elapsed now w = (Inr result, w')"
  shows "substitutions result = [] \<or>
         (\<exists>items. substitutions result =
            build_substitutions (detect analyze ''en'' text ets thr) items)"
  using assms
  by (auto simp: anonymize_def Let_def split: if_splits sum.splits prod.splits)

text \<open>
  Every substitution of a result carries the start, the end and the type of a detection
  on the original text, and the detected text is the original text's slice at these
  positions.  Which substitute it carries is decided by the pairing in
  \<open>build_substitutions\<close>.
\<close>

lemma substitutions_from_detections:
  assumes "anonymize analyze engine text ets thr lg elapsed now w = (Inr result, w')"
  shows "\<forall>s \<in> set (substitutions result).
           \<exists>d \<in> set (detect analyze ''en'' text ets thr).
             sub_start s = det_start d \<and> sub_end s = det_end d \<and>
             sub_entity_type s = det_entity_type d \<and>
             sub_original_length s = sub_end s - sub_start s \<and>
             det_text d = py_slice text (sub_start s) (sub_end s)"
proof
  fix s
  assume s: "s \<in> set (substitutions result)"
  with anonymize_substitutions[OF assms] obtain items where
    "s \<in> set (build_substitutions (detect analyze ''en'' text ets thr) items)"
    by auto
  from build_substitutions_from_detection[OF this] obtain d where
    d: "d \<in> set (detect analyze ''en'' text ets thr)"
       "sub_start s = det_start d" "sub_end s = det_end d"
       "sub_entity_type s = det_entity_type d"
       "sub_original_length s = det_end d - det_start d"
    by blast
  from detect_text[OF d(1)] d
  show "\<exists>d \<in> set (detect analyze ''en'' text ets thr).
          sub_start s = det_start d \<and> sub_end s = det_end d \<and>
          sub_entity_type s = det_entity_type d \<and>
          sub_original_length s = sub_end s - sub_start s \<and>
          det_text d = py_slice text (sub_start s) (sub_end s)"
    by auto
qed

section \<open>Claims about anonymization and the API\<close>

text \<open>
  C6 at the failing input, the text \<open>a@b.com 10.0.0.1\<close>.  The analyzer reports three
  spans: the e-mail address at \<open>[0, 7)\<close>, the URL \<open>b.com\<close> inside it at \<open>[2, 7)\<close>, and
  the IP address at \<open>[8, 16)\<close>.  Presidio's engine drops a span that lies inside another
  one and replaces the two that remain, so that it returns two items.  \<open>zip\<close> pairs the
  three detections with the two items in their order: the second substitution reports
  the span and the type of the URL with the substitute that replaced the IP address at
  \<open>[8, 16)\<close>, and no substitution reports that span.  The scores, the threshold and the
  rows that the operator stored do not matter.
\<close>

theorem substitution_reported_at_other_span:
  "\<forall>score1 score2 score3 thr db'.
     fst (anonymize
            (\<lambda>text entities language score_threshold.
               [\<lparr> rr_entity_type = ''EMAIL_ADDRESS'', rr_start = 0, rr_end = 7,
                   rr_score = score1 \<rparr>,
                \<lparr> rr_entity_type = ''URL'', rr_start = 2, rr_end = 7, rr_score = score2 \<rparr>,
                \<lparr> rr_entity_type = ''IP_ADDRESS'', rr_start = 8, rr_end = 16,
                   rr_score = score3 \<rparr>])
            (\<lambda>text analyzer_results db.
               Inr ((\<lparr> er_text = ''ybrown@example.org 10.66.189.235'',
                        er_items =
                          [\<lparr> item_start = 19, item_end = 32, item_entity_type = ''IP_ADDRESS'',
                              item_text = ''10.66.189.235'' \<rparr>,
                           \<lparr> item_start = 0, item_end = 18,
                              item_entity_type = ''EMAIL_ADDRESS'',
                              item_text = ''ybrown@example.org'' \<rparr>] \<rparr>,
                     [''IP_ADDRESS'', ''EMAIL_ADDRESS''], []), db'))
            ''a@b.com 10.0.0.1'' None thr True 5 0 empty_world) =
       Inr \<lparr> anonymized_text = ''ybrown@example.org 10.66.189.235'',
              substitutions =
                [\<lparr> sub_start = 0, sub_end = 7, sub_entity_type = ''EMAIL_ADDRESS'',
                    sub_original_length = 7, sub_substitute = ''ybrown@example.org'' \<rparr>,
                 \<lparr> sub_start = 2, sub_end = 7, sub_entity_type = ''URL'',
                    sub_original_length = 5, sub_substitute = ''10.66.189.235'' \<rparr>],
              entities_detected = 3, entities_anonymized = 2, new_mappings_created = 2,
              existing_mappings_used = 0, processing_time_ms = 5 \<rparr> \<and>
     py_slice ''a@b.com 10.0.0.1'' 2 7 = ''b.com'' \<and>
     py_slice ''a@b.com 10.0.0.1'' 8 16 = ''10.0.0.1''"
  by (simp add: anonymize_def detect_def Let_def build_substitutions_def py_slice_def
      slice_index_def)




text \<open>
  The batch route checks the number of texts and the threshold, not the texts themselves.
\<close>

lemma batch_request_rejected:
  assumes "1000 < length (req_texts body) \<or>
           (\<exists>c. batch_confidence_threshold body = Some c \<and> (c < 0 \<or> 1 < c))"
  shows "post_anonymize_batch analyze engine config elapsed now body w =
           (Inl RequestValidationError, w)"
proof -
  from assms have "validate_BatchAnonymizeRequest body = Inl RequestValidationError"
    by (auto simp: validate_BatchAnonymizeRequest_def valid_threshold_def)
  then show ?thesis by (simp add: post_anonymize_batch_def)
qed

lemma batch_without_texts_rejected:
  assumes "req_texts body = []"
  shows "fst (post_anonymize_batch analyze engine config elapsed now body w) \<in>
           {Inl RequestValidationError, Inl (HTTPException 400)} \<and>
         snd (post_anonymize_batch analyze engine config elapsed now body w) = w"
  using assms
  by (simp add: post_anonymize_batch_def validate_BatchAnonymizeRequest_def
      batch_anonymize_texts_def)


section \<open>Properties of the decimal strings\<close>

lemma digit_cases:
  assumes "n < 10"
  obtains "n = 0" | "n = 1" | "n = 2" | "n = 3" | "n = 4" | "n = 5" | "n = 6" | "n = 7"
    | "n = 8" | "n = (9::nat)"
  using assms by atomize_elim arith

lemma is_digit_digit_char: "n < 10 \<Longrightarrow> is_digit (digit_char n)"
  by (erule digit_cases) (simp_all add: is_digit_def digit_char_def)

lemma digit_value_digit_char: "n < 10 \<Longrightarrow> digit_value (digit_char n) = n"
  by (erule digit_cases) (simp_all add: digit_value_def digit_char_def)

lemma digit_char_zero: "n < 10 \<Longrightarrow> digit_char n = CHR ''0'' \<longleftrightarrow> n = 0"
  by (erule digit_cases) (simp_all add: digit_char_def)

lemma is_digit_not_sep: "is_digit c \<Longrightarrow> c \<noteq> CHR ''.'' \<and> c \<noteq> CHR ''/''"
  by (auto simp: is_digit_def)

lemma str_nat_digits: "list_all is_digit (str_nat n)"
proof (induction n rule: str_nat.induct)
  case (1 n)
  show ?case
  proof (cases "n < 10")
    case True
    then show ?thesis by (simp add: str_nat.simps[of n] is_digit_digit_char)
  next
    case False
    have "n mod 10 < 10" by simp
    with False 1 show ?thesis by (simp add: str_nat.simps[of n] is_digit_digit_char)
  qed
qed

lemma str_nat_nonempty: "str_nat n \<noteq> []"
  by (simp add: str_nat.simps[of n])

lemma decimal_snoc: "decimal (xs @ [c]) = 10 * decimal xs + digit_value c"
  by (simp add: decimal_def)

lemma decimal_str_nat: "decimal (str_nat n) = n"
proof (induction n rule: str_nat.induct)
  case (1 n)
  show ?case
  proof (cases "n < 10")
    case True
    then show ?thesis
      by (simp add: str_nat.simps[of n] decimal_def digit_value_digit_char)
  next
    case False
    have "n mod 10 < 10" by simp
    with False 1 show ?thesis
      by (simp add: str_nat.simps[of n] decimal_snoc digit_value_digit_char)
  qed
qed

lemma length_str_nat: "n < 1000 \<Longrightarrow> length (str_nat n) \<le> 3"
  by (simp add: str_nat.simps[of n] str_nat.simps[of "n div 10"]
      str_nat.simps[of "n div 10 div 10"])

lemma hd_str_nat: "hd (str_nat n) = CHR ''0'' \<Longrightarrow> n = 0"
proof (induction n rule: str_nat.induct)
  case (1 n)
  show ?case
  proof (cases "n < 10")
    case True
    with 1(2) show ?thesis by (simp add: str_nat.simps[of n] digit_char_zero)
  next
    case False
    with 1(2) have "hd (str_nat (n div 10)) = CHR ''0''"
      by (simp add: str_nat.simps[of n] str_nat_nonempty)
    with 1(1) False have "n div 10 = 0" by simp
    with False show ?thesis by simp
  qed
qed

lemma str_nat_zero: "str_nat 0 = ''0''"
  by (simp add: str_nat.simps[of 0] digit_char_def)

lemma parse_octet_str_nat: "n < 256 \<Longrightarrow> parse_octet (str_nat n) = Some n"
  using hd_str_nat[of n] length_str_nat[of n]
  by (auto simp: parse_octet_def str_nat_nonempty str_nat_digits decimal_str_nat str_nat_zero)

lemma sep_notin_str_nat: "CHR ''.'' \<notin> set (str_nat n)" "CHR ''/'' \<notin> set (str_nat n)"
  using str_nat_digits[of n] is_digit_not_sep by (auto simp: list_all_iff)

section \<open>Properties of splitting\<close>

lemma split_on_nonempty: "split_on sep s \<noteq> []"
  by (induction s) (auto split: list.splits)

lemma split_on_no_sep: "sep \<notin> set xs \<Longrightarrow> split_on sep xs = [xs]"
  by (induction xs) auto

lemma split_on_append:
  "sep \<notin> set xs \<Longrightarrow> split_on sep (xs @ sep # ys) = xs # split_on sep ys"
  by (induction xs) auto

lemma split_on_str_octets:
  "split_on CHR ''.'' (str_octets a b c d) = [str_nat a, str_nat b, str_nat c, str_nat d]"
  by (simp add: str_octets_def split_on_append split_on_no_sep sep_notin_str_nat)

lemma IPv4Address_str_octets:
  assumes "a < 256" "b < 256" "c < 256" "d < 256"
  shows "IPv4Address (str_octets a b c d) = Some (ipv4 a b c d)"
  using assms by (simp add: IPv4Address_def split_on_str_octets parse_octet_str_nat)

lemma slash_notin_str_octets: "CHR ''/'' \<notin> set (str_octets a b c d)"
  by (simp add: str_octets_def sep_notin_str_nat)

lemma str_octets_nonempty: "str_octets a b c d \<noteq> []"
  by (simp add: str_octets_def str_nat_nonempty)

subsection \<open>Strings without a colon are no IPv6 literals\<close>

lemma set_hd_split_on: "set (hd (split_on sep s)) \<subseteq> set s"
proof (induction s)
  case Nil
  show ?case by simp
next
  case (Cons x xs)
  obtain piece pieces where sp: "split_on sep xs = piece # pieces"
    using split_on_nonempty[of sep xs] by (cases "split_on sep xs") auto
  from Cons have "set piece \<subseteq> set xs" by (simp add: sp)
  then show ?case by (auto simp: sp)
qed

lemma set_split_on: "set s \<subseteq> insert sep (\<Union> (set ` set (split_on sep s)))"
proof (induction s)
  case Nil
  show ?case by simp
next
  case (Cons x xs)
  obtain piece pieces where sp: "split_on sep xs = piece # pieces"
    using split_on_nonempty[of sep xs] by (cases "split_on sep xs") auto
  from Cons have "set xs \<subseteq> insert sep (set piece \<union> \<Union> (set ` set pieces))"
    by (simp add: sp)
  then show ?case by (auto simp: sp)
qed

lemma is_digit_not_colon: "is_digit c \<Longrightarrow> c \<noteq> CHR '':''"
  by (auto simp: is_digit_def)

lemma colon_notin_str_nat: "CHR '':'' \<notin> set (str_nat n)"
  using str_nat_digits[of n] is_digit_not_colon by (auto simp: list_all_iff)

lemma colon_notin_str_octets: "CHR '':'' \<notin> set (str_octets a b c d)"
  by (simp add: str_octets_def colon_notin_str_nat)

lemma ipv6_int_from_string_no_colon: "CHR '':'' \<notin> set s \<Longrightarrow> ipv6_int_from_string s = None"
  by (simp add: ipv6_int_from_string_def split_on_no_sep)

lemma IPv6Address_no_colon:
  assumes "CHR '':'' \<notin> set s"
  shows "IPv6Address s = None"
proof -
  have "CHR '':'' \<notin> set (takeWhile (\<lambda>c. c \<noteq> CHR ''%'') s)"
    using assms set_takeWhileD by fastforce
  with assms show ?thesis
    by (auto simp: IPv6Address_def split_scope_id_def Let_def ipv6_int_from_string_no_colon
             split: option.splits if_splits)
qed

lemma IPv6Network_no_colon:
  assumes "CHR '':'' \<notin> set s"
  shows "IPv6Network s strict = None"
proof -
  from assms set_hd_split_on[of "CHR ''/''" s]
  have "CHR '':'' \<notin> set (hd (split_on CHR ''/'' s))" by blast
  then show ?thesis
    by (simp add: IPv6Network_def Let_def IPv6Address_no_colon)
qed

lemma ip_address_no_colon:
  "CHR '':'' \<notin> set s \<Longrightarrow> ip_address s = map_option IPv4 (IPv4Address s)"
  by (simp add: ip_address_def IPv6Address_no_colon split: option.splits)

lemma ip_network_no_colon:
  "CHR '':'' \<notin> set s \<Longrightarrow> ip_network s strict = map_option IPv4 (IPv4Network s strict)"
  by (simp add: ip_network_def IPv6Network_no_colon split: option.splits)

lemma ip_address_str_octets:
  assumes "a < 256" "b < 256" "c < 256" "d < 256"
  shows "ip_address (str_octets a b c d) = Some (IPv4 (ipv4 a b c d))"
  by (simp add: ip_address_no_colon[OF colon_notin_str_octets] IPv4Address_str_octets[OF assms])

lemma parse_octet_digits: "parse_octet s = Some n \<Longrightarrow> list_all is_digit s"
  by (simp add: parse_octet_def split: if_splits)

lemma IPv4Address_no_colon:
  assumes "IPv4Address s = Some a"
  shows "CHR '':'' \<notin> set s"
proof
  assume "CHR '':'' \<in> set s"
  with set_split_on[of s "CHR ''.''"] obtain piece where
    p: "piece \<in> set (split_on CHR ''.'' s)" and c: "CHR '':'' \<in> set piece"
    by auto
  from assms obtain n where "parse_octet piece = Some n"
    using p by (auto simp: IPv4Address_def split: list.splits option.splits)
  from parse_octet_digits[OF this] c is_digit_not_colon show False
    by (auto simp: list_all_iff)
qed

text \<open>
  When \<open>IPv4Network\<close> fails for host bits only, \<open>IPv6Network\<close> fails too: the outcome of
  \<open>ip_network\<close> is the \<open>ValueError\<close> that the code sees.
\<close>

lemma IPv6Network_after_host_bits:
  assumes "IPv4Network s False \<noteq> None"
  shows "IPv6Network s strict = None" and "ip_network s True = map_option IPv4 (IPv4Network s True)"
proof -
  from assms obtain a where "IPv4Address (hd (split_on CHR ''/'' s)) = Some a"
    by (auto simp: IPv4Network_def Let_def split: if_splits option.splits)
  from IPv4Address_no_colon[OF this] show "IPv6Network s strict = None" for strict
    by (simp add: IPv6Network_def Let_def IPv6Address_no_colon)
  then show "ip_network s True = map_option IPv4 (IPv4Network s True)"
    by (simp add: ip_network_def split: option.splits)
qed

lemma IPv6Network_str_octets:
  "IPv6Network (str_octets a b c d @ CHR ''/'' # sfx) strict = None"
  by (simp add: IPv6Network_def Let_def split_on_append[OF slash_notin_str_octets]
      IPv6Address_no_colon[OF colon_notin_str_octets])

lemma ip_network_str_octets:
  "ip_network (str_octets a b c d @ CHR ''/'' # sfx) strict =
     map_option IPv4 (IPv4Network (str_octets a b c d @ CHR ''/'' # sfx) strict)"
  by (simp add: ip_network_def IPv6Network_str_octets split: option.splits)

text \<open>The factories on IPv6 literals.\<close>

lemma is_network_address_ipv6:
  "is_network_address ''2001:db8::/32'' = (True, Some 32)"
  "is_network_address ''2001:db8::1/32'' = (False, None)"
  "IPv6Address ''fe80::1%eth0'' = Some (338288524927261089654018896841347694593, Some ''eth0'')"
  "IPv6Address ''::1.2.3.4'' = Some (16909060, None)"
  by (simp_all add: is_network_address_def ip_network_def IPv4Network_def IPv6Network_def
      IPv6Address_def split_scope_id_def ipv6_int_from_string_def IPv4Address_def
      parse_octet_def py_int_def is_digit_def decimal_def digit_value_def parse_hextet_def
      is_hex_digit_def hex_value_def Let_def ipv4_def hex_str.simps hex_char_def)

section \<open>Properties of the address pattern\<close>

lemma takeWhile_digits: "list_all is_digit ds \<Longrightarrow> \<not> is_digit x \<Longrightarrow>
    takeWhile is_digit (ds @ x # rest) = ds \<and> dropWhile is_digit (ds @ x # rest) = x # rest"
  by (induction ds) auto

lemma digits_dot_str_nat:
  assumes "n < 1000"
  shows "digits_dot (str_nat n @ ''.'' @ rest) = Some (str_nat n, rest)"
proof -
  have nd: "\<not> is_digit CHR ''.''" by (simp add: is_digit_def)
  from takeWhile_digits[OF str_nat_digits nd, of n rest]
  show ?thesis using length_str_nat[OF assms] str_nat_nonempty[of n]
    by (cases "str_nat n") (auto simp: digits_dot_def Let_def)
qed

lemma match_ip_str_octets:
  assumes "a < 256" "b < 256" "c < 256" "d < 256"
  shows "match_ip (str_octets a b c d) = Some (str_octets a b c d)"
proof -
  have t: "takeWhile is_digit (str_nat d) = str_nat d"
    using str_nat_digits[of d] by (simp add: list_all_iff)
  have k: "take 3 (str_nat d) = str_nat d"
    using length_str_nat[of d] assms by simp
  show ?thesis
    using assms digits_dot_str_nat[of a] digits_dot_str_nat[of b] digits_dot_str_nat[of c]
    by (simp add: match_ip_def str_octets_def str_nat_nonempty Let_def t k)
qed

lemma search_ip_str_octets:
  assumes "a < 256" "b < 256" "c < 256" "d < 256"
  shows "search_ip (str_octets a b c d) = Some (str_octets a b c d)"
  using match_ip_str_octets[OF assms] str_octets_nonempty[of a b c d]
  by (cases "str_octets a b c d") simp_all

lemma parse_ip_with_cidr_suffix:
  "parse_ip_with_cidr (str_octets a b c d @ CHR ''/'' # sfx) =
     (str_octets a b c d, Some (CHR ''/'' # sfx))"
proof -
  have "\<forall>x \<in> set (str_octets a b c d). x \<noteq> CHR ''/''"
    using slash_notin_str_octets[of a b c d] by auto
  then show ?thesis
    by (simp add: parse_ip_with_cidr_def takeWhile_append2 dropWhile_append2)
qed

lemma parse_ip_with_cidr_plain:
  "parse_ip_with_cidr (str_octets a b c d) = (str_octets a b c d, None)"
  by (simp add: parse_ip_with_cidr_def slash_notin_str_octets)

section \<open>Properties of addresses and networks\<close>

lemma ipv4_div24:
  assumes "b < 256" "c < 256" "d < 256"
  shows "ipv4 a b c d div 16777216 = a"
proof (rule div_nat_eqI)
  show "16777216 * a \<le> ipv4 a b c d" by (simp add: ipv4_def)
  show "ipv4 a b c d < 16777216 * Suc a" using assms by (simp add: ipv4_def)
qed

lemma ipv4_div16:
  assumes "c < 256" "d < 256"
  shows "ipv4 a b c d div 65536 = a * 256 + b"
proof (rule div_nat_eqI)
  show "65536 * (a * 256 + b) \<le> ipv4 a b c d" by (simp add: ipv4_def)
  show "ipv4 a b c d < 65536 * Suc (a * 256 + b)" using assms by (simp add: ipv4_def)
qed

lemma ipv4_div20:
  assumes "b < 256" "c < 256" "d < 256"
  shows "ipv4 a b c d div 1048576 = a * 16 + b div 16"
proof -
  define q where "q = b div 16"
  define r where "r = b mod 16"
  have b: "b = 16 * q + r" and r: "r < 16" by (simp_all add: q_def r_def)
  have e: "ipv4 a b c d = 1048576 * (a * 16 + q) + (65536 * r + 256 * c + d)"
    by (simp add: ipv4_def b)
  have "ipv4 a b c d div 1048576 = a * 16 + q"
  proof (rule div_nat_eqI)
    show "1048576 * (a * 16 + q) \<le> ipv4 a b c d" by (simp add: e)
    show "ipv4 a b c d < 1048576 * Suc (a * 16 + q)" using assms r by (simp add: e)
  qed
  then show ?thesis by (simp add: q_def)
qed

lemma ipv4_mod256:
  assumes "d < 256"
  shows "ipv4 a b c d mod 256 = d"
proof -
  have "ipv4 a b c d = d + 256 * ((a * 256 + b) * 256 + c)" by (simp add: ipv4_def)
  then show ?thesis using assms by (simp only: mod_mult_self2 mod_less)
qed


lemma ipv4_base8: "ipv4 x 0 0 0 = x * 16777216"
  by (simp add: ipv4_def)

lemma ipv4_base16: "ipv4 x y 0 0 = (x * 256 + y) * 65536"
  by (simp add: ipv4_def)

lemma in_network_8:
  assumes "b < 256" "c < 256" "d < 256"
  shows "in_network (ipv4 a b c d) (ipv4 x 0 0 0, 8) \<longleftrightarrow> a = x"
proof -
  have "in_network (ipv4 a b c d) (ipv4 x 0 0 0, 8) \<longleftrightarrow>
          ipv4 a b c d div 16777216 * 16777216 = x * 16777216"
    by (simp add: in_network_def ipv4_base8)
  also have "\<dots> \<longleftrightarrow> a = x"
    by (simp only: ipv4_div24[OF assms] mult_cancel2) simp
  finally show ?thesis .
qed

lemma in_network_16:
  assumes "b < 256" "c < 256" "d < 256" "y < 256"
  shows "in_network (ipv4 a b c d) (ipv4 x y 0 0, 16) \<longleftrightarrow> a = x \<and> b = y"
proof -
  have "in_network (ipv4 a b c d) (ipv4 x y 0 0, 16) \<longleftrightarrow>
          ipv4 a b c d div 65536 * 65536 = (x * 256 + y) * 65536"
    by (simp add: in_network_def ipv4_base16)
  also have "\<dots> \<longleftrightarrow> a * 256 + b = x * 256 + y"
    by (simp only: ipv4_div16[OF assms(2,3)] mult_cancel2) simp
  also have "\<dots> \<longleftrightarrow> a = x \<and> b = y"
  proof
    assume e: "a * 256 + b = x * 256 + y"
    have "(a * 256 + b) div 256 = a" "(a * 256 + b) mod 256 = b"
      using assms(1) by simp_all
    moreover have "(x * 256 + y) div 256 = x" "(x * 256 + y) mod 256 = y"
      using assms(4) by simp_all
    ultimately show "a = x \<and> b = y" using e by metis
  qed simp
  finally show ?thesis .
qed

lemma in_network_12:
  assumes "b < 256" "c < 256" "d < 256"
  shows "in_network (ipv4 a b c d) (ipv4 172 16 0 0, 12) \<longleftrightarrow> a = 172 \<and> 16 \<le> b \<and> b \<le> 31"
proof -
  have base: "ipv4 172 16 0 0 = 2753 * 1048576"
    by (simp add: ipv4_def)
  have "in_network (ipv4 a b c d) (ipv4 172 16 0 0, 12) \<longleftrightarrow>
          ipv4 a b c d div 1048576 * 1048576 = 2753 * 1048576"
    by (simp add: in_network_def base)
  also have "\<dots> \<longleftrightarrow> a * 16 + b div 16 = 2753"
    by (simp only: ipv4_div20[OF assms] mult_cancel2) simp
  also have "\<dots> \<longleftrightarrow> a = 172 \<and> 16 \<le> b \<and> b \<le> 31"
  proof
    assume e: "a * 16 + b div 16 = 2753"
    have q: "b div 16 < 16" using assms(1) by simp
    have "(a * 16 + b div 16) div 16 = a" "(a * 16 + b div 16) mod 16 = b div 16"
      using q by simp_all
    with e have "a = 2753 div 16" "b div 16 = 2753 mod 16" by simp_all
    then have "a = 172" "b div 16 = 1" by simp_all
    then show "a = 172 \<and> 16 \<le> b \<and> b \<le> 31" by arith
  next
    assume "a = 172 \<and> 16 \<le> b \<and> b \<le> 31"
    then have "a = 172" "b div 16 = 1" by (simp, arith)
    then show "a * 16 + b div 16 = 2753" by simp
  qed
  finally show ?thesis .
qed

lemma in_network_32: "in_network ip (x, 32) \<longleftrightarrow> ip = x"
  by (simp add: in_network_def)

lemma ipv4_inject:
  assumes "b < 256" "c < 256" "d < 256" "b' < 256" "c' < 256" "d' < 256"
  shows "ipv4 a b c d = ipv4 a' b' c' d' \<longleftrightarrow> a = a' \<and> b = b' \<and> c = c' \<and> d = d'"
proof
  assume e: "ipv4 a b c d = ipv4 a' b' c' d'"
  have a: "a = a'"
    using ipv4_div24[OF assms(1,2,3), of a] ipv4_div24[OF assms(4,5,6), of a'] e by simp
  have "a * 256 + b = a' * 256 + b'"
    using ipv4_div16[OF assms(2,3), of a b] ipv4_div16[OF assms(5,6), of a' b'] e by simp
  with a have b: "b = b'" by simp
  have d: "d = d'"
    using ipv4_mod256[OF assms(3), of a b c] ipv4_mod256[OF assms(6), of a' b' c'] e by simp
  from e a b d have "c = c'" by (simp add: ipv4_def)
  with a b d show "a = a' \<and> b = b' \<and> c = c' \<and> d = d'" by simp
qed simp

lemma is_private_ip_str_octets:
  assumes "a < 256" "b < 256" "c < 256" "d < 256"
  shows "is_private_ip (str_octets a b c d) \<longleftrightarrow> private_octets a b"
proof -
  have n8: "in_network (ipv4 a b c d) (ipv4 x 0 0 0, 8) \<longleftrightarrow> a = x" for x
    by (rule in_network_8[OF assms(2,3,4)])
  have n16: "y < 256 \<Longrightarrow> in_network (ipv4 a b c d) (ipv4 x y 0 0, 16) \<longleftrightarrow> a = x \<and> b = y" for x y
    by (rule in_network_16[OF assms(2,3,4)])
  have n12: "in_network (ipv4 a b c d) (ipv4 172 16 0 0, 12) \<longleftrightarrow> a = 172 \<and> 16 \<le> b \<and> b \<le> 31"
    by (rule in_network_12[OF assms(2,3,4)])
  show ?thesis
    by (simp add: is_private_ip_def ip_address_str_octets[OF assms] RFC1918_PRIVATE_RANGES_def
        INTERNAL_RANGES_def n8 n16 n12 private_octets_def)
qed

lemma public_not_private_octets:
  assumes "b < 256" "c < 256" "d < 256"
    and "\<not> (is_private (ipv4 a b c d) \<or> is_loopback (ipv4 a b c d) \<or>
             is_link_local (ipv4 a b c d))"
  shows "\<not> private_octets a b"
proof
  assume p: "private_octets a b"
  let ?ip = "ipv4 a b c d"
  have n8: "in_network ?ip (ipv4 x 0 0 0, 8) \<longleftrightarrow> a = x" for x
    by (rule in_network_8[OF assms(1,2,3)])
  have n16: "y < 256 \<Longrightarrow> in_network ?ip (ipv4 x y 0 0, 16) \<longleftrightarrow> a = x \<and> b = y" for x y
    by (rule in_network_16[OF assms(1,2,3)])
  have n12: "in_network ?ip (ipv4 172 16 0 0, 12) \<longleftrightarrow> a = 172 \<and> 16 \<le> b \<and> b \<le> 31"
    by (rule in_network_12[OF assms(1,2,3)])
  have lo: "a \<noteq> 127"
    using assms(4) n8[of 127] by (simp add: is_loopback_def)
  have ll: "\<not> (a = 169 \<and> b = 254)"
    using assms(4) n16[of 254 169] by (simp add: is_link_local_def)
  from p lo ll have rfc: "a = 10 \<or> (a = 172 \<and> 16 \<le> b \<and> b \<le> 31) \<or> (a = 192 \<and> b = 168)"
    unfolding private_octets_def by blast
  have "\<exists>net \<in> set py_private_networks. in_network ?ip net"
  proof -
    from rfc consider "a = 10" | "a = 172 \<and> 16 \<le> b \<and> b \<le> 31" | "a = 192 \<and> b = 168" by blast
    then show ?thesis
    proof cases
      case 1
      then have "in_network ?ip (ipv4 10 0 0 0, 8)" using n8[of 10] by simp
      moreover have "(ipv4 10 0 0 0, 8) \<in> set py_private_networks"
        by (simp add: py_private_networks_def)
      ultimately show ?thesis by blast
    next
      case 2
      then have "in_network ?ip (ipv4 172 16 0 0, 12)" using n12 by simp
      moreover have "(ipv4 172 16 0 0, 12) \<in> set py_private_networks"
        by (simp add: py_private_networks_def)
      ultimately show ?thesis by blast
    next
      case 3
      then have "in_network ?ip (ipv4 192 168 0 0, 16)" using n16[of 168 192] by simp
      moreover have "(ipv4 192 168 0 0, 16) \<in> set py_private_networks"
        by (simp add: py_private_networks_def)
      ultimately show ?thesis by blast
    qed
  qed
  then have one: "list_ex (in_network ?ip) py_private_networks"
    by (simp only: list_ex_iff)
  have ex: "\<not> in_network ?ip (ipv4 192 0 0 k, 32)" if "k < 256" for k
  proof
    assume "in_network ?ip (ipv4 192 0 0 k, 32)"
    then have "?ip = ipv4 192 0 0 k" by (simp only: in_network_32)
    with ipv4_inject[OF assms(1,2,3), of 0 0 k a 192] that have "a = 192 \<and> b = 0" by simp
    with rfc show False by simp
  qed
  have "list_all (\<lambda>net. \<not> in_network ?ip net) py_private_networks_exceptions"
    using ex[of 9] ex[of 10] by (simp add: py_private_networks_exceptions_def)
  with one have "is_private ?ip" by (simp only: is_private_def simp_thms)
  with assms(4) show False by simp
qed

section \<open>Properties of the address generators\<close>

lemma randint_range:
  assumes "a \<le> b"
  shows "a \<le> fst (randint a b rng) \<and> fst (randint a b rng) \<le> b"
proof -
  define x where "x = shd rng mod (b - a + 1)"
  have "x < b - a + 1" by (simp add: x_def)
  with assms have "a + x \<le> b" by linarith
  then show ?thesis by (simp add: randint_def x_def)
qed

lemma snd_randint: "snd (randint a b rng) = stl rng"
  by (simp add: randint_def)

lemma generate_private_ipv4_octets:
  "\<exists>a b c d. fst (generate_private_ipv4 rng) = str_octets a b c d \<and>
     a < 256 \<and> b < 256 \<and> c < 256 \<and> 1 \<le> d \<and> d \<le> 254 \<and>
     (a = 10 \<or> (a = 172 \<and> 16 \<le> b \<and> b \<le> 31) \<or> (a = 192 \<and> b = 168))"
proof -
  have r255: "fst (randint 0 255 r) < 256" for r
    using randint_range[of 0 255 r] by simp
  have r254: "1 \<le> fst (randint 1 254 r) \<and> fst (randint 1 254 r) \<le> 254" for r
    using randint_range[of 1 254 r] by simp
  have r31: "16 \<le> fst (randint 16 31 r) \<and> fst (randint 16 31 r) \<le> 31" for r
    using randint_range[of 16 31 r] by simp
  obtain range_choice r0 where c: "choice [''10'', ''172'', ''192.168''] rng = (range_choice, r0)"
    by (cases "choice [''10'', ''172'', ''192.168''] rng") auto
  show ?thesis
  proof (cases "range_choice = ''10''")
    case True
    let ?b = "fst (randint 0 255 r0)"
    let ?c = "fst (randint 0 255 (stl r0))"
    let ?d = "fst (randint 1 254 (stl (stl r0)))"
    have "fst (generate_private_ipv4 rng) = str_octets 10 ?b ?c ?d"
      using c True by (simp add: generate_private_ipv4_def randint_def)
    with r255[of r0] r255[of "stl r0"] r254[of "stl (stl r0)"] show ?thesis
      by (intro exI[of _ 10] exI[of _ ?b] exI[of _ ?c] exI[of _ ?d]) simp
  next
    case False
    note not10 = this
    show ?thesis
    proof (cases "range_choice = ''172''")
      case True
      let ?b = "fst (randint 16 31 r0)"
      let ?c = "fst (randint 0 255 (stl r0))"
      let ?d = "fst (randint 1 254 (stl (stl r0)))"
      have "fst (generate_private_ipv4 rng) = str_octets 172 ?b ?c ?d"
        using c True by (simp add: generate_private_ipv4_def randint_def)
      moreover have "?b < 256" using r31[of r0] by simp
      ultimately show ?thesis
        using r31[of r0] r255[of "stl r0"] r254[of "stl (stl r0)"]
        by (intro exI[of _ 172] exI[of _ ?b] exI[of _ ?c] exI[of _ ?d]) simp
    next
      case False
      let ?c = "fst (randint 0 255 r0)"
      let ?d = "fst (randint 1 254 (stl r0))"
      have "fst (generate_private_ipv4 rng) = str_octets 192 168 ?c ?d"
        using c False not10 by (simp add: generate_private_ipv4_def randint_def)
      with r255[of r0] r254[of "stl r0"] show ?thesis
        by (intro exI[of _ 192] exI[of _ 168] exI[of _ ?c] exI[of _ ?d]) simp
    qed
  qed
qed

lemma public_ipv4_candidate_octets:
  "\<exists>a b c d. fst (public_ipv4_candidate rng) = str_octets a b c d \<and>
     a < 256 \<and> b < 256 \<and> c < 256 \<and> d < 256 \<and>
     fst (snd (public_ipv4_candidate rng)) =
       (\<not> (is_private (ipv4 a b c d) \<or> is_loopback (ipv4 a b c d) \<or>
           is_link_local (ipv4 a b c d) \<or> is_multicast (ipv4 a b c d) \<or>
           is_reserved (ipv4 a b c d))) \<and>
     snd (snd (public_ipv4_candidate rng)) = stl (stl (stl (stl rng)))"
proof -
  let ?a = "fst (randint 1 223 rng)"
  let ?b = "fst (randint 0 255 (stl rng))"
  let ?c = "fst (randint 0 255 (stl (stl rng)))"
  let ?d = "fst (randint 1 254 (stl (stl (stl rng))))"
  have a: "?a < 256" using randint_range[of 1 223 rng] by simp
  have b: "?b < 256" using randint_range[of 0 255 "stl rng"] by simp
  have c: "?c < 256" using randint_range[of 0 255 "stl (stl rng)"] by simp
  have d: "?d < 256" using randint_range[of 1 254 "stl (stl (stl rng))"] by simp
  have e: "public_ipv4_candidate rng =
             (str_octets ?a ?b ?c ?d,
              (case IPv4Address (str_octets ?a ?b ?c ?d) of
                 None \<Rightarrow> False
               | Some ip \<Rightarrow> \<not> (is_private ip \<or> is_loopback ip \<or> is_link_local ip \<or>
                                is_multicast ip \<or> is_reserved ip)),
              stl (stl (stl (stl rng))))"
    by (simp add: public_ipv4_candidate_def randint_def Let_def)
  show ?thesis
    using a b c d
    by (intro exI[of _ ?a] exI[of _ ?b] exI[of _ ?c] exI[of _ ?d])
       (simp add: e IPv4Address_str_octets)
qed

lemma public_ipv4_candidate_accepted:
  assumes "fst (snd (public_ipv4_candidate rng))"
  shows "\<not> is_private_ip (fst (public_ipv4_candidate rng)) \<and>
         IPv4Address (fst (public_ipv4_candidate rng)) \<noteq> None"
proof -
  from public_ipv4_candidate_octets[of rng] obtain a b c d where
    s: "fst (public_ipv4_candidate rng) = str_octets a b c d" and
    o: "a < 256" "b < 256" "c < 256" "d < 256" and
    ok: "fst (snd (public_ipv4_candidate rng)) =
           (\<not> (is_private (ipv4 a b c d) \<or> is_loopback (ipv4 a b c d) \<or>
               is_link_local (ipv4 a b c d) \<or> is_multicast (ipv4 a b c d) \<or>
               is_reserved (ipv4 a b c d)))"
    by blast
  from assms ok have "\<not> (is_private (ipv4 a b c d) \<or> is_loopback (ipv4 a b c d) \<or>
               is_link_local (ipv4 a b c d))" by simp
  from public_not_private_octets[OF o(2,3,4) this]
  show ?thesis by (simp add: s is_private_ip_str_octets[OF o] IPv4Address_str_octets[OF o])
qed

lemma generate_public_ipv4_sound:
  assumes "generate_public_ipv4 rng = Some (r, rng')"
  shows "\<not> is_private_ip r \<and> IPv4Address r \<noteq> None"
proof -
  let ?P = "\<lambda>(x :: rng) (y :: string \<times> rng).
              \<not> is_private_ip (fst y) \<and> IPv4Address (fst y) \<noteq> None"
  have "?P rng (r, rng')"
  proof (rule generate_public_ipv4.raw_induct[where P = ?P, OF _ assms])
    fix f :: "rng \<Rightarrow> (string \<times> rng) option" and x y
    assume IH: "\<And>x y. f x = Some y \<Longrightarrow> ?P x y"
      and eq: "(if fst (snd (public_ipv4_candidate x))
                then Some (fst (public_ipv4_candidate x), snd (snd (public_ipv4_candidate x)))
                else f (snd (snd (public_ipv4_candidate x)))) = Some y"
    show "?P x y"
    proof (cases "fst (snd (public_ipv4_candidate x))")
      case True
      with eq have "fst y = fst (public_ipv4_candidate x)" by auto
      with public_ipv4_candidate_accepted[OF True] show ?thesis by simp
    next
      case False
      with eq have "f (snd (snd (public_ipv4_candidate x))) = Some y" by simp
      then show ?thesis by (rule IH)
    qed
  qed
  then show ?thesis by simp
qed

text \<open>
  The loop returns as soon as a candidate passes: if the candidate of turn \<open>k\<close> passes,
  the run returns at turn \<open>k\<close> or before.
\<close>

lemma generate_public_ipv4_returns:
  assumes "fst (snd (public_ipv4_candidate (sdrop (4 * k) rng)))"
  shows "generate_public_ipv4 rng \<noteq> None"
  using assms
proof (induction k arbitrary: rng)
  case 0
  then show ?case by (subst generate_public_ipv4.simps) simp
next
  case (Suc k)
  have "sdrop 4 rng = stl (stl (stl (stl rng)))"
    by (simp add: numeral_eq_Suc)
  then have next_rng: "snd (snd (public_ipv4_candidate rng)) = sdrop 4 rng"
    using public_ipv4_candidate_octets[of rng] by auto
  have "4 * Suc k = 4 + 4 * k" by simp
  then have "sdrop (4 * Suc k) rng = sdrop (4 * k) (sdrop 4 rng)"
    by (simp only: sdrop_add)
  with Suc.prems have "fst (snd (public_ipv4_candidate (sdrop (4 * k) (sdrop 4 rng))))"
    by simp
  from Suc.IH[OF this] show ?case
    by (subst generate_public_ipv4.simps) (simp add: next_rng)
qed

section \<open>Properties of \<open>generate_ip\<close>\<close>

lemma split_on_suffix:
  "split_on CHR ''/'' (str_octets a b c d @ CHR ''/'' # sfx) =
     str_octets a b c d # split_on CHR ''/'' sfx"
  by (rule split_on_append[OF slash_notin_str_octets])

text \<open>
  An address whose last octet is not zero has a host bit set under every prefix length up
  to 24: with a suffix it is a network address only for a prefix length of 25 or more.
\<close>

lemma host_octet_not_network:
  assumes o: "a < 256" "b < 256" "c < 256" "d < 256" and d: "d \<noteq> 0"
    and n: "is_network_address (str_octets a b c d @ CHR ''/'' # sfx) = (True, Some p)"
  shows "25 \<le> p \<and> p \<le> 32"
proof -
  let ?v = "str_octets a b c d @ CHR ''/'' # sfx"
  have parts: "split_on CHR ''/'' ?v = str_octets a b c d # split_on CHR ''/'' sfx"
    by (rule split_on_suffix)
  obtain s1 rest where sp: "split_on CHR ''/'' sfx = s1 # rest"
    using split_on_nonempty[of "CHR ''/''" sfx] by (cases "split_on CHR ''/'' sfx") auto
  from n have pi: "py_int s1 = Some p" and net: "IPv4Network ?v True \<noteq> None"
    by (auto simp: is_network_address_def ip_network_str_octets parts sp
             split: option.splits if_splits)
  from net have rest: "rest = []"
    by (auto simp: IPv4Network_def Let_def parts sp split: if_splits)
  from net pi rest have p32: "p \<le> 32" and z: "ipv4 a b c d mod 2 ^ (32 - p) = 0"
    by (auto simp: IPv4Network_def Let_def parts sp IPv4Address_str_octets[OF o]
             split: if_splits)
  have "25 \<le> p"
  proof (rule ccontr)
    assume "\<not> 25 \<le> p"
    then have "8 \<le> 32 - p" by simp
    then have "(2::nat) ^ 8 dvd 2 ^ (32 - p)" by (rule le_imp_power_dvd)
    moreover from z have "(2::nat) ^ (32 - p) dvd ipv4 a b c d" by (simp add: dvd_eq_mod_eq_0)
    ultimately have "(2::nat) ^ 8 dvd ipv4 a b c d" by (rule dvd_trans)
    then have "ipv4 a b c d mod 256 = 0" by simp
    with ipv4_mod256[OF o(4), of a b c] d show False by simp
  qed
  with p32 show ?thesis by simp
qed

lemma is_network_address_cases:
  "is_network_address v = (False, None) \<or> (\<exists>p. is_network_address v = (True, Some p))"
  by (auto simp: is_network_address_def split: option.splits)

lemma generate_ip_private_host:
  assumes o: "a < 256" "b < 256" "c < 256" "d < 256"
    and p: "is_private_ip (str_octets a b c d)"
    and h: "\<not> fst (is_network_address (str_octets a b c d @ CHR ''/'' # sfx))"
  shows "generate_ip (Some (str_octets a b c d @ CHR ''/'' # sfx)) st =
           Some (fst (generate_private_ipv4 (global_rng st)) @ CHR ''/'' # sfx,
                 st \<lparr> global_rng := snd (generate_private_ipv4 (global_rng st)) \<rparr>)"
proof -
  from h is_network_address_cases[of "str_octets a b c d @ CHR ''/'' # sfx"]
  have n: "is_network_address (str_octets a b c d @ CHR ''/'' # sfx) = (False, None)" by auto
  show ?thesis
    using p
    by (simp add: generate_ip_def n parse_ip_with_cidr_suffix search_ip_str_octets[OF o]
        random'_def split: prod.splits)
qed

lemma generate_ip_public_host:
  assumes o: "a < 256" "b < 256" "c < 256" "d < 256"
    and p: "\<not> is_private_ip (str_octets a b c d)"
  shows "generate_ip (Some (str_octets a b c d)) st =
           (case generate_public_ipv4 (global_rng st) of
              None \<Rightarrow> None
            | Some (r, rng') \<Rightarrow> Some (r, st \<lparr> global_rng := rng' \<rparr>))"
proof -
  have n: "is_network_address (str_octets a b c d) = (False, None)"
    by (simp add: is_network_address_def slash_notin_str_octets)
  show ?thesis
    using p
    by (simp add: generate_ip_def n parse_ip_with_cidr_plain search_ip_str_octets[OF o]
        lift_random_def split: option.splits prod.splits)
qed

lemma generate_ip_public_host_suffix:
  assumes o: "a < 256" "b < 256" "c < 256" "d < 256"
    and p: "\<not> is_private_ip (str_octets a b c d)"
    and h: "\<not> fst (is_network_address (str_octets a b c d @ CHR ''/'' # sfx))"
  shows "generate_ip (Some (str_octets a b c d @ CHR ''/'' # sfx)) st =
           (case generate_public_ipv4 (global_rng st) of
              None \<Rightarrow> None
            | Some (r, rng') \<Rightarrow> Some (r @ CHR ''/'' # sfx, st \<lparr> global_rng := rng' \<rparr>))"
proof -
  from h is_network_address_cases[of "str_octets a b c d @ CHR ''/'' # sfx"]
  have n: "is_network_address (str_octets a b c d @ CHR ''/'' # sfx) = (False, None)" by auto
  show ?thesis
    using p
    by (simp add: generate_ip_def n parse_ip_with_cidr_suffix search_ip_str_octets[OF o]
        lift_random_def split: option.splits prod.splits)
qed

text \<open>
  An IPv6 network is a network for \<open>is_network_address\<close>; its address is in none of the
  private ranges, and the substitute is a public IPv4 network with its prefix length.
\<close>

lemma generate_ip_ipv6_network:
  "generate_ip (Some ''2001:db8::/32'') st = Some (random' (generate_public_network 32) st)"
proof -
  have "ip_address ''2001:db8::'' = Some (IPv6 42540766411282592856903984951653826560)"
    by (simp add: ip_address_def IPv4Address_def parse_octet_def is_digit_def IPv6Address_def
        split_scope_id_def ipv6_int_from_string_def parse_hextet_def is_hex_digit_def
        hex_value_def Let_def)
  then have "\<not> is_private_ip ''2001:db8::''"
    by (simp add: is_private_ip_def RFC1918_PRIVATE_RANGES_def INTERNAL_RANGES_def)
  then show ?thesis
    by (simp add: generate_ip_def is_network_address_ipv6)
qed

lemma generate_ip_address:
  "generate lib ''IP_ADDRESS'' original h st =
     generate_ip original
       (case h of None \<Rightarrow> st
        | Some x \<Rightarrow> if x = [] then st
                    else st \<lparr> faker_rng := seed_instance lib (seed_value (md5 lib x)) \<rparr>)"
  by (simp add: generate_def Let_def)

lemma global_rng_reseed:
  "global_rng (case h of None \<Rightarrow> st
        | Some x \<Rightarrow> if x = [] then st
                    else st \<lparr> faker_rng := seed_instance lib (seed_value (md5 lib x)) \<rparr>) =
   global_rng st"
  by (simp split: option.splits)

section \<open>Claims about the generator\<close>

lemma str_nat_small:
  "str_nat 0 = ''0''" "str_nat 1 = ''1''" "str_nat 2 = ''2''" "str_nat 8 = ''8''"
  "str_nat 9 = ''9''" "str_nat 10 = ''10''" "str_nat 50 = ''50''" "str_nat 51 = ''51''"
  "str_nat 168 = ''168''" "str_nat 192 = ''192''" "str_nat (Suc 0) = ''1''"
  "str_nat 128 = ''128''"
  by (simp_all add: str_nat.simps[of 0] str_nat.simps[of 1] str_nat.simps[of 2]
      str_nat.simps[of 8] str_nat.simps[of 9] str_nat.simps[of 10] str_nat.simps[of 50]
      str_nat.simps[of 51] str_nat.simps[of 168] str_nat.simps[of 192] str_nat.simps[of 5]
      str_nat.simps[of 16] str_nat.simps[of 19] str_nat.simps[of "Suc 0"]
      str_nat.simps[of 128] str_nat.simps[of 12] digit_char_def)

lemma py_int_24: "py_int ''24'' = Some 24" and py_int_31: "py_int ''31'' = Some 31"
  and py_int_25: "py_int ''25'' = Some 25"
  by (simp_all add: py_int_def is_digit_def decimal_def digit_value_def)

text \<open>
  C5, as stated, fails for a suffix longer than \<open>/24\<close>.  \<open>192.168.1.50/25\<close> is a private
  host address with a suffix.  When \<open>random.choice\<close> takes the third range and the two
  \<open>random.randint\<close> give 0 and 128 (the outcomes 2, 0 and 127 of the source), the result
  is \<open>192.168.0.128/25\<close>, which \<open>is_network_address\<close> takes for a network: the last octet
  is kept away from 0 and 255 only.
\<close>

theorem generate_ip_host_becomes_network:
  "is_private_ip ''192.168.1.50'' \<and>
   is_network_address ''192.168.1.50/25'' = (False, None) \<and>
   (\<forall>lib h fr ur.
      map_option fst
        (generate lib ''IP_ADDRESS'' (Some ''192.168.1.50/25'') h
           \<lparr> faker_rng = fr, global_rng = 2 ## 0 ## 127 ## sconst 0, os_urandom = ur \<rparr>) =
        Some ''192.168.0.128/25'') \<and>
   is_network_address ''192.168.0.128/25'' = (True, Some 25)"
proof -
  have s1: "str_octets 192 168 1 50 = ''192.168.1.50''"
    and s2: "str_octets 192 168 0 128 = ''192.168.0.128''"
    by (simp_all add: str_octets_def str_nat_small)
  have o1: "(192::nat) < 256" "(168::nat) < 256" "(1::nat) < 256" "(50::nat) < 256"
    and o2: "(0::nat) < 256" "(128::nat) < 256"
    by simp_all
  have p1: "is_private_ip ''192.168.1.50''"
    using is_private_ip_str_octets[OF o1] unfolding s1 by (simp add: private_octets_def)
  have ip1: "IPv4Address ''192.168.1.50'' = Some (ipv4 192 168 1 50)"
    using IPv4Address_str_octets[OF o1] unfolding s1 by simp
  have ip2: "IPv4Address ''192.168.0.128'' = Some (ipv4 192 168 0 128)"
    using IPv4Address_str_octets[OF o1(1,2) o2] unfolding s2 by simp
  have sp1: "split_on CHR ''/'' ''192.168.1.50/25'' = [''192.168.1.50'', ''25'']"
    and sp2: "split_on CHR ''/'' ''192.168.0.128/25'' = [''192.168.0.128'', ''25'']"
    by simp_all
  have v6: "IPv6Network ''192.168.1.50/25'' True = None"
    using IPv6Network_str_octets[of 192 168 1 50 "''25''" True] unfolding s1 by simp
  have n1: "is_network_address ''192.168.1.50/25'' = (False, None)"
    by (simp add: is_network_address_def ip_network_def v6 IPv4Network_def Let_def sp1
        py_int_25 ip1 ipv4_def)
  have n2: "is_network_address ''192.168.0.128/25'' = (True, Some 25)"
    by (simp add: is_network_address_def ip_network_def IPv4Network_def Let_def sp2
        py_int_25 ip2 ipv4_def)
  have g: "generate_private_ipv4 (2 ## 0 ## 127 ## sconst 0) =
             (str_octets 192 168 0 128, sconst 0)"
    by (simp add: generate_private_ipv4_def choice_def randint_def)
  have h1: "\<not> fst (is_network_address (str_octets 192 168 1 50 @ CHR ''/'' # ''25''))"
    unfolding s1 using n1 by simp
  have "map_option fst
          (generate lib ''IP_ADDRESS'' (Some ''192.168.1.50/25'') h
             \<lparr> faker_rng = fr, global_rng = 2 ## 0 ## 127 ## sconst 0, os_urandom = ur \<rparr>) =
          Some ''192.168.0.128/25''" for lib h fr ur
    using generate_ip_private_host[OF o1 p1[folded s1] h1,
        of "case h of None \<Rightarrow>
                \<lparr> faker_rng = fr, global_rng = 2 ## 0 ## 127 ## sconst 0, os_urandom = ur \<rparr>
            | Some x \<Rightarrow>
                if x = []
                then \<lparr> faker_rng = fr, global_rng = 2 ## 0 ## 127 ## sconst 0, os_urandom = ur \<rparr>
                else \<lparr> faker_rng = fr, global_rng = 2 ## 0 ## 127 ## sconst 0, os_urandom = ur \<rparr>
                       \<lparr> faker_rng := seed_instance lib (seed_value (md5 lib x)) \<rparr>"]
    unfolding s1
    by (simp add: generate_ip_address global_rng_reseed g s2 split: option.splits)
  with p1 n1 n2 show ?thesis by blast
qed

text \<open>
  C5, amended.  \<open>generate("IP_ADDRESS", v)\<close> keeps the private or public class of a host
  address and its suffix.  For a private address with a suffix under which it is not a
  network, the result is a private address from \<open>generate_private_ipv4\<close>, its last octet
  between 1 and 254, followed by the same suffix; under that suffix the result is a host
  address whenever the prefix length is at most 24 (it is a network address only if the
  prefix length is 25 or more).  For a public address, with or without a suffix, every
  result is a public address (followed by the same suffix), and there is a result as soon
  as one candidate of the retry loop passes.
\<close>

theorem generate_ip_keeps_class:
  assumes "a < 256" "b < 256" "c < 256" "d < 256"
  shows
    "(is_private_ip (str_octets a b c d) \<and>
      \<not> fst (is_network_address (str_octets a b c d @ ''/'' @ sfx)) \<longrightarrow>
        (\<exists>a' b' c' d' st'.
           generate lib ''IP_ADDRESS'' (Some (str_octets a b c d @ ''/'' @ sfx)) h st =
             Some (str_octets a' b' c' d' @ ''/'' @ sfx, st') \<and>
           is_private_ip (str_octets a' b' c' d') \<and> 1 \<le> d' \<and> d' \<le> 254 \<and>
           (\<forall>p. is_network_address (str_octets a' b' c' d' @ ''/'' @ sfx) = (True, Some p)
                  \<longrightarrow> 25 \<le> p))) \<and>
     (\<not> is_private_ip (str_octets a b c d) \<longrightarrow>
        (\<forall>res st'.
           generate lib ''IP_ADDRESS'' (Some (str_octets a b c d)) h st = Some (res, st') \<longrightarrow>
             \<not> is_private_ip res \<and> IPv4Address res \<noteq> None) \<and>
        (\<forall>res st'.
           \<not> fst (is_network_address (str_octets a b c d @ ''/'' @ sfx)) \<and>
           generate lib ''IP_ADDRESS'' (Some (str_octets a b c d @ ''/'' @ sfx)) h st =
             Some (res, st') \<longrightarrow>
             (\<exists>r. res = r @ ''/'' @ sfx \<and> \<not> is_private_ip r \<and> IPv4Address r \<noteq> None)) \<and>
        ((\<exists>k. fst (snd (public_ipv4_candidate (sdrop (4 * k) (global_rng st))))) \<longrightarrow>
           (\<exists>res st'.
              generate lib ''IP_ADDRESS'' (Some (str_octets a b c d)) h st = Some (res, st'))) \<and>
        ((\<exists>k. fst (snd (public_ipv4_candidate (sdrop (4 * k) (global_rng st))))) \<and>
         \<not> fst (is_network_address (str_octets a b c d @ ''/'' @ sfx)) \<longrightarrow>
           (\<exists>res st'.
              generate lib ''IP_ADDRESS'' (Some (str_octets a b c d @ ''/'' @ sfx)) h st =
                Some (res, st'))))"
proof (intro conjI impI)
  assume "is_private_ip (str_octets a b c d) \<and>
          \<not> fst (is_network_address (str_octets a b c d @ ''/'' @ sfx))"
  then have p: "is_private_ip (str_octets a b c d)"
    and hst: "\<not> fst (is_network_address (str_octets a b c d @ CHR ''/'' # sfx))"
    by simp_all
  let ?st0 = "case h of None \<Rightarrow> st
        | Some x \<Rightarrow> if x = [] then st
                    else st \<lparr> faker_rng := seed_instance lib (seed_value (md5 lib x)) \<rparr>"
  obtain a' b' c' d' where
    new: "fst (generate_private_ipv4 (global_rng ?st0)) = str_octets a' b' c' d'" and
    o': "a' < 256" "b' < 256" "c' < 256" and d': "1 \<le> d'" "d' \<le> 254" and
    cls: "a' = 10 \<or> (a' = 172 \<and> 16 \<le> b' \<and> b' \<le> 31) \<or> (a' = 192 \<and> b' = 168)"
    using generate_private_ipv4_octets[of "global_rng ?st0"] by blast
  from d' have d256: "d' < 256" and d0: "d' \<noteq> 0" by simp_all
  have priv: "is_private_ip (str_octets a' b' c' d')"
    using cls by (auto simp: is_private_ip_str_octets[OF o' d256] private_octets_def)
  have res: "generate lib ''IP_ADDRESS'' (Some (str_octets a b c d @ ''/'' @ sfx)) h st =
               Some (str_octets a' b' c' d' @ ''/'' @ sfx,
                     ?st0 \<lparr> global_rng := snd (generate_private_ipv4 (global_rng ?st0)) \<rparr>)"
    using generate_ip_private_host[OF assms p hst, of ?st0] new
    by (simp add: generate_ip_address)
  have host: "\<forall>p. is_network_address (str_octets a' b' c' d' @ ''/'' @ sfx) = (True, Some p)
                \<longrightarrow> 25 \<le> p"
    using host_octet_not_network[OF o' d256 d0, of sfx] by simp
  from res priv d' host
  show "\<exists>a' b' c' d' st'.
           generate lib ''IP_ADDRESS'' (Some (str_octets a b c d @ ''/'' @ sfx)) h st =
             Some (str_octets a' b' c' d' @ ''/'' @ sfx, st') \<and>
           is_private_ip (str_octets a' b' c' d') \<and> 1 \<le> d' \<and> d' \<le> 254 \<and>
           (\<forall>p. is_network_address (str_octets a' b' c' d' @ ''/'' @ sfx) = (True, Some p)
                  \<longrightarrow> 25 \<le> p)"
    by blast
next
  assume p: "\<not> is_private_ip (str_octets a b c d)"
  show "\<forall>res st'.
           generate lib ''IP_ADDRESS'' (Some (str_octets a b c d)) h st = Some (res, st') \<longrightarrow>
             \<not> is_private_ip res \<and> IPv4Address res \<noteq> None"
    using generate_public_ipv4_sound
    by (auto simp: generate_ip_address generate_ip_public_host[OF assms p]
             global_rng_reseed split: option.splits)
next
  assume p: "\<not> is_private_ip (str_octets a b c d)"
  show "\<forall>res st'.
           \<not> fst (is_network_address (str_octets a b c d @ ''/'' @ sfx)) \<and>
           generate lib ''IP_ADDRESS'' (Some (str_octets a b c d @ ''/'' @ sfx)) h st =
             Some (res, st') \<longrightarrow>
             (\<exists>r. res = r @ ''/'' @ sfx \<and> \<not> is_private_ip r \<and> IPv4Address r \<noteq> None)"
  proof (intro allI impI)
    fix res st'
    assume "\<not> fst (is_network_address (str_octets a b c d @ ''/'' @ sfx)) \<and>
            generate lib ''IP_ADDRESS'' (Some (str_octets a b c d @ ''/'' @ sfx)) h st =
              Some (res, st')"
    then have hst: "\<not> fst (is_network_address (str_octets a b c d @ CHR ''/'' # sfx))"
      and g: "generate lib ''IP_ADDRESS'' (Some (str_octets a b c d @ CHR ''/'' # sfx)) h st =
                Some (res, st')"
      by simp_all
    from g obtain r rng' where
      "generate_public_ipv4 (global_rng st) = Some (r, rng')" and "res = r @ CHR ''/'' # sfx"
      by (auto simp: generate_ip_address generate_ip_public_host_suffix[OF assms p hst]
               global_rng_reseed split: option.splits)
    with generate_public_ipv4_sound[of "global_rng st" r rng']
    show "\<exists>r. res = r @ ''/'' @ sfx \<and> \<not> is_private_ip r \<and> IPv4Address r \<noteq> None"
      by auto
  qed
next
  assume p: "\<not> is_private_ip (str_octets a b c d)"
    and "\<exists>k. fst (snd (public_ipv4_candidate (sdrop (4 * k) (global_rng st))))"
  then obtain k where "fst (snd (public_ipv4_candidate (sdrop (4 * k) (global_rng st))))"
    by blast
  from generate_public_ipv4_returns[OF this]
  show "\<exists>res st'. generate lib ''IP_ADDRESS'' (Some (str_octets a b c d)) h st = Some (res, st')"
    by (auto simp: generate_ip_address generate_ip_public_host[OF assms p]
             global_rng_reseed split: option.splits)
next
  assume p: "\<not> is_private_ip (str_octets a b c d)"
    and "(\<exists>k. fst (snd (public_ipv4_candidate (sdrop (4 * k) (global_rng st))))) \<and>
         \<not> fst (is_network_address (str_octets a b c d @ ''/'' @ sfx))"
  then obtain k where k: "fst (snd (public_ipv4_candidate (sdrop (4 * k) (global_rng st))))"
    and hst: "\<not> fst (is_network_address (str_octets a b c d @ CHR ''/'' # sfx))"
    by auto
  from generate_public_ipv4_returns[OF k]
  have "\<exists>res st'.
          generate lib ''IP_ADDRESS'' (Some (str_octets a b c d @ CHR ''/'' # sfx)) h st =
            Some (res, st')"
    by (auto simp: generate_ip_address generate_ip_public_host_suffix[OF assms p hst]
             global_rng_reseed split: option.splits)
  then show "\<exists>res st'.
          generate lib ''IP_ADDRESS'' (Some (str_octets a b c d @ ''/'' @ sfx)) h st =
            Some (res, st')"
    by simp
qed

theorem generate_ip_keeps_class_witness:
  "\<forall>lib h fr ur.
     is_private_ip ''192.168.1.50'' \<and>
     is_network_address ''192.168.1.50/24'' = (False, None) \<and>
     (\<exists>a' b' c' d' st'.
        generate lib ''IP_ADDRESS'' (Some ''192.168.1.50/24'') h
          \<lparr> faker_rng = fr, global_rng = sconst 7, os_urandom = ur \<rparr> =
          Some (str_octets a' b' c' d' @ ''/24'', st') \<and>
        is_private_ip (str_octets a' b' c' d')) \<and>
     \<not> is_private_ip ''8.8.8.8'' \<and>
     (\<exists>res st'.
        generate lib ''IP_ADDRESS'' (Some ''8.8.8.8'') h
          \<lparr> faker_rng = fr, global_rng = sconst 7, os_urandom = ur \<rparr> = Some (res, st') \<and>
        \<not> is_private_ip res)"
proof (intro allI)
  fix lib :: library and h :: "string option" and fr ur :: rng
  let ?st = "\<lparr> faker_rng = fr, global_rng = sconst 7, os_urandom = ur \<rparr>"
  have s1: "str_octets 192 168 1 50 = ''192.168.1.50''"
    by (simp add: str_octets_def str_nat_small)
  have s2: "str_octets 8 8 8 8 = ''8.8.8.8''"
    by (simp add: str_octets_def str_nat_small)
  have p1: "is_private_ip ''192.168.1.50''"
    using is_private_ip_str_octets[of 192 168 1 50] unfolding s1
    by (simp add: private_octets_def)
  have p2: "\<not> is_private_ip ''8.8.8.8''"
    using is_private_ip_str_octets[of 8 8 8 8] unfolding s2
    by (simp add: private_octets_def)
  have ip1: "IPv4Address ''192.168.1.50'' = Some (ipv4 192 168 1 50)"
    using IPv4Address_str_octets[of 192 168 1 50] unfolding s1 by simp
  have sp: "split_on CHR ''/'' ''192.168.1.50/24'' = [''192.168.1.50'', ''24'']"
    by simp
  have "ipv4 192 168 1 50 mod 2 ^ (32 - 24) = 50"
    using ipv4_mod256[of 50 192 168 1] by simp
  moreover have "IPv6Network ''192.168.1.50/24'' True = None"
    using IPv6Network_str_octets[of 192 168 1 50 "''24''" True] unfolding s1 by simp
  ultimately have n1: "is_network_address ''192.168.1.50/24'' = (False, None)"
    by (simp add: is_network_address_def ip_network_def IPv4Network_def Let_def sp py_int_24
        ip1)
  have "\<not> (is_private (ipv4 8 7 7 8) \<or> is_loopback (ipv4 8 7 7 8) \<or>
        is_link_local (ipv4 8 7 7 8) \<or> is_multicast (ipv4 8 7 7 8) \<or>
        is_reserved (ipv4 8 7 7 8))"
    by (simp add: is_private_def is_loopback_def is_link_local_def is_multicast_def
        is_reserved_def py_private_networks_def in_network_def ipv4_def)
  moreover have "public_ipv4_candidate (sconst 7) =
      (str_octets 8 7 7 8,
       (case IPv4Address (str_octets 8 7 7 8) of
          None \<Rightarrow> False
        | Some ip \<Rightarrow> \<not> (is_private ip \<or> is_loopback ip \<or> is_link_local ip \<or>
                         is_multicast ip \<or> is_reserved ip)),
       sconst 7)"
    by (simp add: public_ipv4_candidate_def randint_def Let_def)
  ultimately have "fst (snd (public_ipv4_candidate (sconst 7)))"
    using IPv4Address_str_octets[of 8 7 7 8] by simp
  then have cand: "fst (snd (public_ipv4_candidate (sdrop (4 * 0) (global_rng ?st))))"
    by simp
  have o1: "(192::nat) < 256" "(168::nat) < 256" "(1::nat) < 256" "(50::nat) < 256"
    and o2: "(8::nat) < 256"
    by simp_all
  have n1': "\<not> fst (is_network_address (''192.168.1.50'' @ ''/'' @ ''24''))"
    using n1 by simp
  note t1 = generate_ip_keeps_class[OF o1, of "''24''" lib h ?st, unfolded s1,
      THEN conjunct1, rule_format, OF conjI[OF p1 n1']]
  note t2 = generate_ip_keeps_class[OF o2 o2 o2 o2, of "''24''" lib h ?st, unfolded s2,
      THEN conjunct2, rule_format, OF p2]
  from t1 have w1: "\<exists>a' b' c' d' st'.
        generate lib ''IP_ADDRESS'' (Some ''192.168.1.50/24'') h ?st =
          Some (str_octets a' b' c' d' @ ''/24'', st') \<and>
        is_private_ip (str_octets a' b' c' d')"
    by simp blast
  from t2[THEN conjunct2, THEN conjunct2, THEN conjunct1, rule_format, OF exI[of _ 0], OF cand]
  have ret: "\<exists>res st'. generate lib ''IP_ADDRESS'' (Some ''8.8.8.8'') h ?st = Some (res, st')" .
  from t2[THEN conjunct1]
  have pub: "\<forall>res st'. generate lib ''IP_ADDRESS'' (Some ''8.8.8.8'') h ?st = Some (res, st') \<longrightarrow>
            \<not> is_private_ip res \<and> IPv4Address res \<noteq> None" .
  from ret pub have w2: "\<exists>res st'.
        generate lib ''IP_ADDRESS'' (Some ''8.8.8.8'') h ?st = Some (res, st') \<and>
        \<not> is_private_ip res"
    by blast
  from p1 n1 w1 p2 w2
  show "is_private_ip ''192.168.1.50'' \<and>
     is_network_address ''192.168.1.50/24'' = (False, None) \<and>
     (\<exists>a' b' c' d' st'.
        generate lib ''IP_ADDRESS'' (Some ''192.168.1.50/24'') h ?st =
          Some (str_octets a' b' c' d' @ ''/24'', st') \<and>
        is_private_ip (str_octets a' b' c' d')) \<and>
     \<not> is_private_ip ''8.8.8.8'' \<and>
     (\<exists>res st'.
        generate lib ''IP_ADDRESS'' (Some ''8.8.8.8'') h ?st = Some (res, st') \<and>
        \<not> is_private_ip res)"
    by blast
qed

text \<open>
  C8 at the failing input, a source of randomness whose every outcome is 9: each turn of
  the loop of \<open>generate_public_ipv4\<close> proposes \<open>10.9.9.10\<close>, a private address, and
  rejects it; there is no bound on the turns and no fallback, and the call never returns.
\<close>

lemma public_ipv4_candidate_sconst:
  "public_ipv4_candidate (sconst 9) = (''10.9.9.10'', False, sconst 9)"
proof -
  have o: "str_octets 10 9 9 10 = ''10.9.9.10''"
    by (simp add: str_octets_def str_nat_small)
  have "private_octets 10 9" by (simp add: private_octets_def)
  with public_not_private_octets[of 9 9 10 10]
  have "is_private (ipv4 10 9 9 10) \<or> is_loopback (ipv4 10 9 9 10) \<or>
        is_link_local (ipv4 10 9 9 10)"
    by auto
  then show ?thesis
    using IPv4Address_str_octets[of 10 9 9 10]
    by (auto simp: public_ipv4_candidate_def randint_def Let_def o)
qed

theorem generate_public_ipv4_never_returns: "generate_public_ipv4 (sconst 9) = None"
proof (cases "generate_public_ipv4 (sconst 9)")
  case None
  then show ?thesis .
next
  case (Some y)
  let ?P = "\<lambda>(x :: rng) (y :: string \<times> rng). x \<noteq> sconst 9"
  have "?P (sconst 9) y"
  proof (rule generate_public_ipv4.raw_induct[where P = ?P, OF _ Some])
    fix f :: "rng \<Rightarrow> (string \<times> rng) option" and x y
    assume IH: "\<And>x y. f x = Some y \<Longrightarrow> ?P x y"
      and eq: "(if fst (snd (public_ipv4_candidate x))
                then Some (fst (public_ipv4_candidate x), snd (snd (public_ipv4_candidate x)))
                else f (snd (snd (public_ipv4_candidate x)))) = Some y"
    show "?P x y"
    proof
      assume x: "x = sconst 9"
      with eq have "f (sconst 9) = Some y"
        by (simp add: public_ipv4_candidate_sconst)
      from IH[OF this] show False by simp
    qed
  qed
  then show ?thesis by simp
qed

text \<open>
  The sibling \<open>generate_public_network\<close> is bounded: its loop makes at most 200 attempts
  of four draws, and the fallback at most five draws more.
\<close>

lemma public_network_attempts_draws:
  "\<exists>k \<le> 4 * n. snd (public_network_attempts n prefix_len rng) = sdrop k rng"
proof (induction n arbitrary: rng)
  case 0
  then show ?case by simp
next
  case (Suc n)
  let ?r4 = "stl (stl (stl (stl rng)))"
  have r4: "?r4 = sdrop 4 rng" by (simp add: numeral_eq_Suc)
  from Suc[of ?r4] obtain k where
    k: "k \<le> 4 * n" "snd (public_network_attempts n prefix_len ?r4) = sdrop k ?r4"
    by blast
  have "snd (public_network_attempts (Suc n) prefix_len rng) = ?r4 \<or>
        snd (public_network_attempts (Suc n) prefix_len rng) =
          snd (public_network_attempts n prefix_len ?r4)"
    by (simp add: randint_def split: option.splits)
  then show ?case
  proof
    assume "snd (public_network_attempts (Suc n) prefix_len rng) = ?r4"
    then have "snd (public_network_attempts (Suc n) prefix_len rng) = sdrop 4 rng"
      by (simp only: r4)
    then show ?thesis by (intro exI[of _ 4]) simp
  next
    assume "snd (public_network_attempts (Suc n) prefix_len rng) =
              snd (public_network_attempts n prefix_len ?r4)"
    with k(2) have "snd (public_network_attempts (Suc n) prefix_len rng) = sdrop (4 + k) rng"
      by (simp only: r4 sdrop_add)
    with k(1) show ?thesis by (intro exI[of _ "4 + k"]) simp
  qed
qed

text \<open>
  C3, as stated, fails: with the first of the four placeholders drawn, \<open>generate\<close>
  returns the original value \<open>"Group A"\<close> for the entity type \<open>NRP\<close>.
\<close>

theorem generate_returns_original:
  "\<forall>lib h fr ur.
     map_option fst
       (generate lib ''NRP'' (Some ''Group A'') h
          \<lparr> faker_rng = fr, global_rng = sconst 0, os_urandom = ur \<rparr>) = Some ''Group A''"
  by (simp add: generate_def Let_def generate_nrp_def random'_def choice_def nrp_options_def
      split: option.splits)

text \<open>
  C3, amended: \<open>generate\<close> never compares its result with the original value.  For
  every entity type but \<open>PERSON\<close> and \<open>IP_ADDRESS\<close> the result does not depend on the
  original value at all.  For \<open>NRP\<close> it is one of the four placeholders, so it differs
  from every original value that is not one of the four.
\<close>

theorem generate_ignores_original:
  "(entity_type' \<noteq> ''PERSON'' \<and> entity_type' \<noteq> ''IP_ADDRESS'' \<longrightarrow>
      generate lib entity_type' original h st = generate lib entity_type' original' h st) \<and>
   (\<exists>r st'. generate lib ''NRP'' original h st = Some (r, st') \<and> r \<in> set nrp_options \<and>
      (\<forall>v. original = Some v \<and> v \<notin> set nrp_options \<longrightarrow> r \<noteq> v))"
proof (intro conjI impI)
  assume "entity_type' \<noteq> ''PERSON'' \<and> entity_type' \<noteq> ''IP_ADDRESS''"
  then show "generate lib entity_type' original h st = generate lib entity_type' original' h st"
    by (simp add: generate_def Let_def)
next
  let ?st0 = "case h of None \<Rightarrow> st
        | Some x \<Rightarrow> if x = [] then st
                    else st \<lparr> faker_rng := seed_instance lib (seed_value (md5 lib x)) \<rparr>"
  let ?r = "nrp_options ! (shd (global_rng ?st0) mod length nrp_options)"
  have g: "generate lib ''NRP'' original h st = Some (?r, ?st0 \<lparr> global_rng := stl (global_rng ?st0) \<rparr>)"
    by (simp add: generate_def Let_def generate_nrp_def random'_def choice_def)
  have "length nrp_options = 4" by (simp add: nrp_options_def)
  then have "shd (global_rng ?st0) mod length nrp_options < length nrp_options" by simp
  then have m: "?r \<in> set nrp_options" by (rule nth_mem)
  then have "\<forall>v. original = Some v \<and> v \<notin> set nrp_options \<longrightarrow> ?r \<noteq> v" by blast
  with g m
  show "\<exists>r st'. generate lib ''NRP'' original h st = Some (r, st') \<and> r \<in> set nrp_options \<and>
      (\<forall>v. original = Some v \<and> v \<notin> set nrp_options \<longrightarrow> r \<noteq> v)"
    by blast
qed

theorem generate_ignores_original_witness:
  "\<forall>lib h st.
     generate lib ''US_SSN'' (Some ''123-45-6789'') h st = generate lib ''US_SSN'' None h st \<and>
     (\<exists>r st'. generate lib ''NRP'' (Some ''Quaker'') h st = Some (r, st') \<and> r \<noteq> ''Quaker'')"
proof (intro allI)
  fix lib :: library and h :: "string option" and st :: gen_state
  have a: "''US_SSN'' \<noteq> ''PERSON'' \<and> ''US_SSN'' \<noteq> ''IP_ADDRESS''" by simp
  have b: "''Quaker'' \<notin> set nrp_options" by (simp add: nrp_options_def)
  from generate_ignores_original[of "''US_SSN''" lib "Some ''123-45-6789''" h st None] a
  have 1: "generate lib ''US_SSN'' (Some ''123-45-6789'') h st = generate lib ''US_SSN'' None h st"
    by blast
  from generate_ignores_original[of "''US_SSN''" lib "Some ''Quaker''" h st None] b
  have 2: "\<exists>r st'. generate lib ''NRP'' (Some ''Quaker'') h st = Some (r, st') \<and> r \<noteq> ''Quaker''"
    by blast
  from 1 2
  show "generate lib ''US_SSN'' (Some ''123-45-6789'') h st = generate lib ''US_SSN'' None h st \<and>
     (\<exists>r st'. generate lib ''NRP'' (Some ''Quaker'') h st = Some (r, st') \<and> r \<noteq> ''Quaker'')"
    by blast
qed

text \<open>
  C4 at the failing input: two calls for \<open>US_ITIN\<close> with the same original value and
  the same hash, one after the other on one generator.  Both reseed Faker's source, but
  \<open>_generate_itin\<close> draws from the module \<open>random\<close>, which \<open>generate\<close> does not reseed:
  the second call continues where the first stopped and returns another number.
\<close>

lemma str_nat_numeral:
  "str_nat (numeral k) =
     (if (numeral k :: nat) < 10 then [digit_char (numeral k)]
      else str_nat (numeral k div 10) @ [digit_char (numeral k mod 10)])"
  by (rule str_nat.simps)

theorem generate_itin_not_reproducible:
  "\<forall>lib fr ur.
     generate lib ''US_ITIN'' (Some ''912-70-1234'') (Some ''abc'')
       \<lparr> faker_rng = fr, global_rng = 0 ## 0 ## 0 ## 0 ## sconst 5, os_urandom = ur \<rparr> =
       Some (''900-70-1000'',
             \<lparr> faker_rng = seed_instance lib (seed_value (md5 lib ''abc'')),
               global_rng = sconst 5, os_urandom = ur \<rparr>) \<and>
     generate lib ''US_ITIN'' (Some ''912-70-1234'') (Some ''abc'')
       \<lparr> faker_rng = seed_instance lib (seed_value (md5 lib ''abc'')),
         global_rng = sconst 5, os_urandom = ur \<rparr> =
       Some (''955-75-1005'',
             \<lparr> faker_rng = seed_instance lib (seed_value (md5 lib ''abc'')),
               global_rng = sconst 5, os_urandom = ur \<rparr>)"
  by (simp add: generate_def Let_def generate_itin_def random'_def randint_def
      str_nat_numeral str_nat_small digit_char_def)

text \<open>
  The generators that draw from Faker's source only are reproducible: with a hash that
  is not empty, their result does not depend on the state the generator was in.
\<close>

lemma generate_reseeded:
  assumes "h \<noteq> []"
  shows "generate lib entity_type' original (Some h) st =
         generate lib entity_type' original None
           (st \<lparr> faker_rng := seed_instance lib (seed_value (md5 lib h)) \<rparr>)"
  using assms by (simp add: generate_def Let_def)

lemma generate_faker_only:
  assumes "entity_type' \<in> set faker_only_types" and "faker_rng st = faker_rng st'"
  shows "map_option fst (generate lib entity_type' original None st) =
         map_option fst (generate lib entity_type' original None st')"
proof -
  from assms(1) consider
      "entity_type' = ''EMAIL_ADDRESS''" | "entity_type' = ''PHONE_NUMBER''"
    | "entity_type' = ''CREDIT_CARD''" | "entity_type' = ''US_SSN''"
    | "entity_type' = ''US_BANK_NUMBER''" | "entity_type' = ''US_DRIVER_LICENSE''"
    | "entity_type' = ''US_PASSPORT''" | "entity_type' = ''STREET_ADDRESS''"
    | "entity_type' = ''DATE_TIME''" | "entity_type' = ''MEDICAL_LICENSE''"
    | "entity_type' = ''URL''" | "entity_type' = ''IBAN_CODE''"
    unfolding faker_only_types_def by fastforce
  then show ?thesis
    using assms(2)
    by cases
      (simp_all add: generate_def Let_def fake_def generate_driver_license_def
         generate_medical_license_def case_prod_beta)
qed

lemma generate_faker_reproducible:
  assumes "h \<noteq> []" and "entity_type' \<in> set faker_only_types"
  shows "map_option fst (generate lib entity_type' original (Some h) st) =
         map_option fst (generate lib entity_type' original (Some h) st')"
  unfolding generate_reseeded[OF assms(1)]
  by (rule generate_faker_only[OF assms(2)]) simp

end
